theory Spec2Isabelle
  imports
    Complex_Main
    "HOL-Library.Sublist"
    "HOL-Library.Char_ord"
    "HOL-Library.List_Lexorder"
begin

section \<open>The JavaScript values the server computes with\<close>

text \<open>
  The wind report server is embedded function by function: the Express route
  \<open>GET /api/windstorms\<close> with its radius filter and deduplication, and its serverless
  twin, which is the same code.  (The older server of the repository, without radius and
  deduplication, is not the subject.)  Three conventions hold throughout.

  \<^item> A JavaScript string is a \<^typ>\<open>string\<close>.  The character classes below are
    JavaScript's on ASCII text; a character above 127 is neither a letter, a digit nor
    white space here, and case conversion leaves it alone.
  \<^item> A JavaScript number is a \<^typ>\<open>real\<close> where the program has checked it finite,
    and a \<open>jsnum\<close> where it may still be \<open>NaN\<close> or infinite.  The reals are the
    numbers the doubles denote: rounding to 53 bits and overflow are not part of the
    model.  \<open>null\<close> and \<open>undefined\<close> are \<open>None\<close>.
  \<^item> A \<open>Date\<close> is its time value, the milliseconds since the epoch, an \<^typ>\<open>int\<close>.
    Every date the program builds lies far inside the range in which \<open>Date.UTC\<close> is
    defined, so the invalid date is not a value of the model.
\<close>

subsection \<open>Characters and strings\<close>

definition is_digit :: "char \<Rightarrow> bool" where
  "is_digit c = (CHR ''0'' \<le> c \<and> c \<le> CHR ''9'')"

definition is_lower :: "char \<Rightarrow> bool" where
  "is_lower c = (CHR ''a'' \<le> c \<and> c \<le> CHR ''z'')"

definition is_upper :: "char \<Rightarrow> bool" where
  "is_upper c = (CHR ''A'' \<le> c \<and> c \<le> CHR ''Z'')"

text \<open>The regular expression class \<open>\s\<close>, which is also what \<open>trim\<close> removes.\<close>

definition is_space :: "char \<Rightarrow> bool" where
  "is_space c = (c \<in> set [CHR '' '', CHR 0x09, CHR 0x0A, CHR 0x0B, CHR 0x0C, CHR 0x0D])"

definition lower_char :: "char \<Rightarrow> char" where
  "lower_char c = (if is_upper c then char_of (of_char c + (32::nat)) else c)"

definition upper_char :: "char \<Rightarrow> char" where
  "upper_char c = (if is_lower c then char_of (of_char c - (32::nat)) else c)"

definition toLowerCase :: "string \<Rightarrow> string" where
  "toLowerCase s = map lower_char s"

definition toUpperCase :: "string \<Rightarrow> string" where
  "toUpperCase s = map upper_char s"

definition trimStart :: "string \<Rightarrow> string" where
  "trimStart s = dropWhile is_space s"

definition trimEnd :: "string \<Rightarrow> string" where
  "trimEnd s = rev (dropWhile is_space (rev s))"

definition trim :: "string \<Rightarrow> string" where
  "trim s = trimEnd (trimStart s)"

text \<open>\<open>hay.includes(needle)\<close>: the needle starts at some position of the haystack.\<close>

fun includes_str :: "string \<Rightarrow> string \<Rightarrow> bool" where
  "includes_str [] needle = (needle = [])"
| "includes_str (c # cs) needle = (prefix needle (c # cs) \<or> includes_str cs needle)"

text \<open>\<open>s.split(sep)\<close> for a separator of one character: never the empty array.\<close>

fun split :: "char \<Rightarrow> string \<Rightarrow> string list" where
  "split sep [] = [[]]"
| "split sep (c # cs) =
     (if c = sep then [] # split sep cs
      else (case split sep cs of
              [] \<Rightarrow> [[c]]
            | w # ws \<Rightarrow> (c # w) # ws))"

text \<open>\<open>a[0]\<close>, which is \<open>undefined\<close> on the empty array.\<close>

definition first_element :: "'a list \<Rightarrow> 'a option" where
  "first_element xs = (case xs of [] \<Rightarrow> None | x # _ \<Rightarrow> Some x)"

text \<open>\<open>value || ""\<close> on a field that is a string or missing.\<close>

definition or_empty :: "string option \<Rightarrow> string" where
  "or_empty v = (case v of None \<Rightarrow> [] | Some s \<Rightarrow> s)"

subsection \<open>Numbers\<close>

datatype jsnum = NaN | NegInf | Fin real | PosInf


text \<open>\<open>Math.round\<close> rounds a half towards plus infinity.\<close>

definition round_half_up :: "real \<Rightarrow> int" where
  "round_half_up x = \<lfloor>x + 1 / 2\<rfloor>"

definition Math_round :: "jsnum \<Rightarrow> jsnum" where
  "Math_round x = (case x of Fin r \<Rightarrow> Fin (of_int (round_half_up r)) | _ \<Rightarrow> x)"

text \<open>Multiplication by a positive constant, as in \<open>magnitude * 1.15078\<close>.\<close>

definition times_pos :: "jsnum \<Rightarrow> real \<Rightarrow> jsnum" where
  "times_pos x k = (case x of Fin r \<Rightarrow> Fin (r * k) | _ \<Rightarrow> x)"

definition digit_val :: "char \<Rightarrow> nat" where
  "digit_val c = of_char c - 48"

definition digits_val :: "string \<Rightarrow> nat" where
  "digits_val ds = foldl (\<lambda>acc c. 10 * acc + digit_val c) 0 ds"

text \<open>
  \<open>Number.parseFloat\<close>: leading white space is skipped, then the longest prefix that is a
  decimal literal is read (a sign, \<open>Infinity\<close>, or digits with an optional fraction and
  an optional exponent); what follows is ignored, and a string with no such prefix is
  \<open>NaN\<close>.
\<close>

definition exponent_part :: "string \<Rightarrow> int" where
  "exponent_part s =
     (case s of
        [] \<Rightarrow> 0
      | c # r \<Rightarrow>
          if c = CHR ''e'' \<or> c = CHR ''E'' then
            (case r of
               [] \<Rightarrow> 0
             | d # r' \<Rightarrow>
                 if d = CHR ''-'' then - int (digits_val (takeWhile is_digit r'))
                 else if d = CHR ''+'' then int (digits_val (takeWhile is_digit r'))
                 else int (digits_val (takeWhile is_digit r)))
          else 0)"

definition scale10 :: "real \<Rightarrow> int \<Rightarrow> real" where
  "scale10 m e = (if 0 \<le> e then m * 10 ^ nat e else m / 10 ^ nat (- e))"

definition unsigned_literal :: "string \<Rightarrow> jsnum" where
  "unsigned_literal s =
     (if prefix ''Infinity'' s then PosInf
      else
        let ip = takeWhile is_digit s;
            r1 = dropWhile is_digit s;
            fr = (case r1 of [] \<Rightarrow> [] | c # r \<Rightarrow>
                    if c = CHR ''.'' then takeWhile is_digit r else []);
            r2 = (case r1 of [] \<Rightarrow> [] | c # r \<Rightarrow>
                    if c = CHR ''.'' then dropWhile is_digit r else r1)
        in if ip = [] \<and> fr = [] then NaN
           else Fin (scale10 (real (digits_val (ip @ fr)))
                       (exponent_part r2 - int (length fr))))"

definition negate :: "jsnum \<Rightarrow> jsnum" where
  "negate x = (case x of NaN \<Rightarrow> NaN | NegInf \<Rightarrow> PosInf | PosInf \<Rightarrow> NegInf | Fin r \<Rightarrow> Fin (- r))"

definition parseFloat_string :: "string \<Rightarrow> jsnum" where
  "parseFloat_string s =
     (case trimStart s of
        [] \<Rightarrow> NaN
      | c # r \<Rightarrow>
          if c = CHR ''-'' then negate (unsigned_literal r)
          else if c = CHR ''+'' then unsigned_literal r
          else unsigned_literal (c # r))"

text \<open>A missing field is \<open>undefined\<close>, which \<open>parseFloat\<close> reads as the text "undefined".\<close>

definition parseFloat :: "string option \<Rightarrow> jsnum" where
  "parseFloat v = (case v of None \<Rightarrow> NaN | Some s \<Rightarrow> parseFloat_string s)"

subsection \<open>Dates\<close>

text \<open>
  The day number of the first of January of a year, leap years, and the day number of a
  year, a month (from 0, any integer: twelve months carry into the year) and a day of
  the month (any integer: day 0 is the last day of the month before), as the language
  standard defines them for \<open>Date.UTC\<close>.
\<close>

definition msPerDay :: int where
  "msPerDay = 86400000"

definition DayFromYear :: "int \<Rightarrow> int" where
  "DayFromYear y =
     365 * (y - 1970) + (y - 1969) div 4 - (y - 1901) div 100 + (y - 1601) div 400"

definition InLeapYear :: "int \<Rightarrow> bool" where
  "InLeapYear y = (y mod 4 = 0 \<and> (y mod 100 \<noteq> 0 \<or> y mod 400 = 0))"

definition days_before_month :: "int \<Rightarrow> int \<Rightarrow> int" where
  "days_before_month y mn =
     [0, 31, 59, 90, 120, 151, 181, 212, 243, 273, 304, 334] ! nat mn
       + (if InLeapYear y \<and> 2 \<le> mn then 1 else 0)"

definition MakeDay :: "int \<Rightarrow> int \<Rightarrow> int \<Rightarrow> int" where
  "MakeDay year month date =
     (let ym = year + month div 12;
          mn = month mod 12
      in DayFromYear ym + days_before_month ym mn + date - 1)"

text \<open>\<open>Date.UTC(year, month, day)\<close>: a year from 0 to 99 means 1900 plus that year.\<close>

definition MakeFullYear :: "int \<Rightarrow> int" where
  "MakeFullYear y = (if 0 \<le> y \<and> y \<le> 99 then 1900 + y else y)"

definition Date_UTC :: "int \<Rightarrow> int \<Rightarrow> int \<Rightarrow> int" where
  "Date_UTC year month day = MakeDay (MakeFullYear year) month day * msPerDay"

text \<open>
  The calendar date of a day number: year, month (from 1) and day of the month, by the
  usual computation on eras of 400 years that start on the first of March.
\<close>

definition civil_from_days :: "int \<Rightarrow> int \<times> int \<times> int" where
  "civil_from_days d =
     (let z = d + 719468;
          era = z div 146097;
          doe = z mod 146097;
          yoe = (doe - doe div 1460 + doe div 36524 - doe div 146096) div 365;
          doy = doe - (365 * yoe + yoe div 4 - yoe div 100);
          mp = (5 * doy + 2) div 153;
          dd = doy - (153 * mp + 2) div 5 + 1;
          mm = (if mp < 10 then mp + 3 else mp - 9);
          yy = yoe + era * 400 + (if mm \<le> 2 then 1 else 0)
      in (yy, mm, dd))"

definition getUTCFullYear :: "int \<Rightarrow> int" where
  "getUTCFullYear t = fst (civil_from_days (t div msPerDay))"

definition getUTCMonth :: "int \<Rightarrow> int" where
  "getUTCMonth t = fst (snd (civil_from_days (t div msPerDay))) - 1"

definition getUTCDate :: "int \<Rightarrow> int" where
  "getUTCDate t = snd (snd (civil_from_days (t div msPerDay)))"

text \<open>\<open>String(n)\<close> for a whole number, and \<open>padStart(2, "0")\<close>.\<close>

fun string_of_nat :: "nat \<Rightarrow> string" where
  "string_of_nat n =
     (if n < 10 then [char_of (48 + n)]
      else string_of_nat (n div 10) @ [char_of (48 + n mod 10)])"

declare string_of_nat.simps [simp del]

definition String_of_int :: "int \<Rightarrow> string" where
  "String_of_int i =
     (if i < 0 then CHR ''-'' # string_of_nat (nat (- i)) else string_of_nat (nat i))"

definition padStart2 :: "string \<Rightarrow> string" where
  "padStart2 s = replicate (2 - length s) CHR ''0'' @ s"

definition formatDate :: "int \<Rightarrow> string" where
  "formatDate date =
     (let month = padStart2 (String_of_int (getUTCMonth date + 1));
          day = padStart2 (String_of_int (getUTCDate date));
          year = String_of_int (getUTCFullYear date)
      in month @ ''/'' @ day @ ''/'' @ year)"

section \<open>The event filter and normaliser\<close>

subsection \<open>\<open>parseNoaaDate\<close>\<close>

text \<open>
  The two regular expressions of \<open>parseNoaaDate\<close> are anchored at the start of the
  string and made of groups of digits and letters with a separator after each, so the
  greedy match is the only one: \<open>lead_digits lo hi\<close> is the group \<open>(\d{lo,hi})\<close>.
\<close>

definition lead_digits :: "nat \<Rightarrow> nat \<Rightarrow> string \<Rightarrow> (string \<times> string) option" where
  "lead_digits lo hi s =
     (let n = min hi (length (takeWhile is_digit s))
      in if n < lo then None else Some (take n s, drop n s))"

definition expect :: "char \<Rightarrow> string \<Rightarrow> string option" where
  "expect c s = (case s of [] \<Rightarrow> None | c' # r \<Rightarrow> if c' = c then Some r else None)"

text \<open>\<open>([A-Z]{3})\<close> under the flag \<open>i\<close>.\<close>

definition lead_letters3 :: "string \<Rightarrow> (string \<times> string) option" where
  "lead_letters3 s =
     (if 3 \<le> length s \<and> list_all (\<lambda>c. is_upper c \<or> is_lower c) (take 3 s)
      then Some (take 3 s, drop 3 s) else None)"

text \<open>\<open>/^(\d{1,2})\/(\d{1,2})\/(\d{4})/\<close>: the groups month, day, year.\<close>

definition slashMatch :: "string \<Rightarrow> (string \<times> string \<times> string) option" where
  "slashMatch str =
     (case lead_digits 1 2 str of None \<Rightarrow> None | Some (month, r1) \<Rightarrow>
      (case expect CHR ''/'' r1 of None \<Rightarrow> None | Some r2 \<Rightarrow>
       (case lead_digits 1 2 r2 of None \<Rightarrow> None | Some (day, r3) \<Rightarrow>
        (case expect CHR ''/'' r3 of None \<Rightarrow> None | Some r4 \<Rightarrow>
         (case lead_digits 4 4 r4 of None \<Rightarrow> None | Some (year, r5) \<Rightarrow>
            Some (month, day, year))))))"

text \<open>\<open>/^(\d{1,2})-([A-Z]{3})-(\d{2,4})/i\<close>: the groups day, month, year.\<close>

definition dashMatch :: "string \<Rightarrow> (string \<times> string \<times> string) option" where
  "dashMatch str =
     (case lead_digits 1 2 str of None \<Rightarrow> None | Some (day, r1) \<Rightarrow>
      (case expect CHR ''-'' r1 of None \<Rightarrow> None | Some r2 \<Rightarrow>
       (case lead_letters3 r2 of None \<Rightarrow> None | Some (monthStr, r3) \<Rightarrow>
        (case expect CHR ''-'' r3 of None \<Rightarrow> None | Some r4 \<Rightarrow>
         (case lead_digits 2 4 r4 of None \<Rightarrow> None | Some (yearStr, r5) \<Rightarrow>
            Some (day, monthStr, yearStr))))))"

definition months :: "string \<Rightarrow> int option" where
  "months = map_of
     [(''JAN'', 0), (''FEB'', 1), (''MAR'', 2), (''APR'', 3), (''MAY'', 4), (''JUN'', 5),
      (''JUL'', 6), (''AUG'', 7), (''SEP'', 8), (''OCT'', 9), (''NOV'', 10), (''DEC'', 11)]"

text \<open>\<open>Number(s)\<close> on a group of digits.\<close>

definition Number_of_digits :: "string \<Rightarrow> int" where
  "Number_of_digits ds = int (digits_val ds)"

definition parseNoaaDate :: "string option \<Rightarrow> int option" where
  "parseNoaaDate val =
     (case val of
        None \<Rightarrow> None
      | Some v \<Rightarrow>
          if v = [] then None
          else
            let str = trim v in
            (case slashMatch str of
               Some (month, day, year) \<Rightarrow>
                 Some (Date_UTC (Number_of_digits year) (Number_of_digits month - 1)
                         (Number_of_digits day))
             | None \<Rightarrow>
                 (case dashMatch str of
                    Some (day, monthStr, yearStr) \<Rightarrow>
                      (let month = months (toUpperCase monthStr);
                           year = Number_of_digits yearStr;
                           year' = (if year < 100 then year + 2000 else year)
                       in (case month of
                             Some m \<Rightarrow> Some (Date_UTC year' m (Number_of_digits day))
                           | None \<Rightarrow> None))
                  | None \<Rightarrow> None)))"

subsection \<open>\<open>normalizeName\<close> and the county test\<close>

text \<open>
  \<open>replace(/\s+county$/i, "")\<close>: the string ends with white space and then the word; the
  leftmost match starts where that run of white space starts.
\<close>

definition strip_county :: "string \<Rightarrow> string" where
  "strip_county s =
     (let n = length s;
          front = take (n - 6) s
      in if 6 \<le> n \<and> toLowerCase (drop (n - 6) s) = ''county''
            \<and> front \<noteq> [] \<and> is_space (last front)
         then trimEnd front else s)"

text \<open>\<open>replace(/[^a-z0-9\s]/g, " ")\<close>.\<close>

definition blank_symbols :: "string \<Rightarrow> string" where
  "blank_symbols s =
     map (\<lambda>c. if is_lower c \<or> is_digit c \<or> is_space c then c else CHR '' '') s"

text \<open>\<open>replace(/\s+/g, " ")\<close>.\<close>

function collapse_spaces :: "string \<Rightarrow> string" where
  "collapse_spaces [] = []"
| "collapse_spaces (c # cs) =
     (if is_space c then CHR '' '' # collapse_spaces (dropWhile is_space cs)
      else c # collapse_spaces cs)"
  by pat_completeness auto
termination
  by (relation "measure length") (auto simp: le_imp_less_Suc length_dropWhile_le)

definition normalizeName :: "string option \<Rightarrow> string" where
  "normalizeName val =
     (case val of
        None \<Rightarrow> []
      | Some v \<Rightarrow>
          if v = [] then []
          else trim (collapse_spaces (blank_symbols (strip_county (toLowerCase v)))))"

text \<open>
  The county test of a row, on the two normalised names: the four alternatives of
  \<open>countyMatches\<close>, and around them the guard \<open>if (normalizedTargetCounty)\<close>, under which
  a target without a county name lets every row pass.
\<close>

definition countyMatches :: "string \<Rightarrow> string \<Rightarrow> bool" where
  "countyMatches recordCounty normalizedTargetCounty =
     (recordCounty = normalizedTargetCounty
      \<or> includes_str recordCounty normalizedTargetCounty
      \<or> includes_str normalizedTargetCounty recordCounty
      \<or> first_element (split CHR '' '' recordCounty)
          = first_element (split CHR '' '' normalizedTargetCounty))"

definition county_passes :: "string \<Rightarrow> string \<Rightarrow> bool" where
  "county_passes recordCounty normalizedTargetCounty =
     (if normalizedTargetCounty \<noteq> []
      then countyMatches recordCounty normalizedTargetCounty else True)"

subsection \<open>One row\<close>

definition WIND_EVENT_TYPES :: "string set" where
  "WIND_EVENT_TYPES =
     {''High Wind'', ''Thunderstorm Wind'', ''Marine Thunderstorm Wind'',
      ''Marine High Wind'', ''Strong Wind'', ''Tropical Storm'', ''Hurricane'',
      ''Hurricane (Typhoon)''}"

text \<open>A parsed row: the value of each column, \<open>None\<close> where the row has no such field.\<close>

type_synonym csv_record = "string \<Rightarrow> string option"

record geo =
  displayName :: string
  geo_lat :: real
  geo_lon :: real
  county :: "string option"
  state :: "string option"

record event =
  date :: int
  windSpeedMph :: int
  eventType :: string
  lat :: "real option"
  lon :: "real option"
  distanceMiles :: "real option"

text \<open>\<open>a || b\<close> on two fields: the first when it is a non-empty string.\<close>

definition or_field :: "string option \<Rightarrow> string option \<Rightarrow> string option" where
  "or_field a b = (case a of None \<Rightarrow> b | Some s \<Rightarrow> if s = [] then b else a)"

text \<open>\<open>Number.isFinite(x) ? x : null\<close>.\<close>

definition finite_or_null :: "jsnum \<Rightarrow> real option" where
  "finite_or_null x = (case x of Fin r \<Rightarrow> Some r | _ \<Rightarrow> None)"

text \<open>
  The magnitude as the row check sees it: a gust in knots (flags \<open>EG\<close> and \<open>MG\<close>) is
  converted and rounded, any other magnitude is left as it was read.
\<close>

definition is_gust :: "csv_record \<Rightarrow> bool" where
  "is_gust rec =
     (let magnitudeType = toUpperCase (or_empty (rec ''MAGNITUDE_TYPE''))
      in magnitudeType = ''EG'' \<or> magnitudeType = ''MG'')"

definition converted_magnitude :: "csv_record \<Rightarrow> jsnum" where
  "converted_magnitude rec =
     (let magnitude = parseFloat (rec ''MAGNITUDE'')
      in if is_gust rec then Math_round (times_pos magnitude 1.15078) else magnitude)"

text \<open>
  The body of the loop over the rows in \<open>getWindEventsForYear\<close>: \<open>None\<close> where the
  source says \<open>continue\<close>, the event it pushes otherwise.
\<close>

definition row_event :: "string \<Rightarrow> string \<Rightarrow> int \<Rightarrow> csv_record \<Rightarrow> event option" where
  "row_event normalizedTargetCounty normalizedTargetState cutoff rec =
     (let eventType = trim (or_empty (rec ''EVENT_TYPE'')) in
      if eventType \<notin> WIND_EVENT_TYPES then None
      else
        let recordState = normalizeName (rec ''STATE'') in
        if normalizedTargetState \<noteq> [] \<and> recordState \<noteq> normalizedTargetState then None
        else
          let recordCounty = normalizeName (rec ''CZ_NAME'') in
          if \<not> county_passes recordCounty normalizedTargetCounty then None
          else
            (case parseNoaaDate (or_field (rec ''BEGIN_DATE_TIME'') (rec ''BEGIN_DATE'')) of
               None \<Rightarrow> None
             | Some beginDate \<Rightarrow>
                 if beginDate < cutoff then None
                 else
                   (case converted_magnitude rec of
                      Fin magnitude \<Rightarrow>
                        if magnitude \<le> 0 then None
                        else Some \<lparr> date = beginDate,
                                    windSpeedMph = round_half_up magnitude,
                                    eventType = eventType,
                                    lat = finite_or_null (parseFloat (rec ''BEGIN_LAT'')),
                                    lon = finite_or_null (parseFloat (rec ''BEGIN_LON'')),
                                    distanceMiles = None \<rparr>
                    | _ \<Rightarrow> None)))"

section \<open>The dataset directory resolver\<close>

text \<open>
  One match of
  \<open>/StormEvents_details-ftp_v1\.0_d(\d{4})_c(\d{8})\.csv\.gz/\<close> at the start of a string:
  the text matched and its two groups.  Every match is 51 characters long.
\<close>

definition match_here :: "string \<Rightarrow> (string \<times> string \<times> string) option" where
  "match_here s =
     (let r1 = drop 30 s;
          r2 = drop 4 r1;
          r3 = drop 2 r2;
          r4 = drop 8 r3
      in if prefix ''StormEvents_details-ftp_v1.0_d'' s
            \<and> length (take 4 r1) = 4 \<and> list_all is_digit (take 4 r1)
            \<and> prefix ''_c'' r2
            \<and> length (take 8 r3) = 8 \<and> list_all is_digit (take 8 r3)
            \<and> prefix ''.csv.gz'' r4
         then Some (take 51 s, take 4 r1, take 8 r3) else None)"

text \<open>
  The loop \<open>while ((match = regex.exec(html)) !== null)\<close> under the flag \<open>g\<close>: the search
  goes on after the end of each match.  The first argument counts the characters of the
  last match that are still to be passed over.
\<close>

fun exec_all :: "nat \<Rightarrow> string \<Rightarrow> (string \<times> string \<times> string) list" where
  "exec_all k [] = []"
| "exec_all (Suc k) (c # cs) = exec_all k cs"
| "exec_all 0 (c # cs) =
     (case match_here (c # cs) of
        Some m \<Rightarrow> m # exec_all (length (fst m) - 1) cs
      | None \<Rightarrow> exec_all 0 cs)"

record storm_file =
  filename :: string
  created :: string

text \<open>\<open>a.localeCompare(b)\<close>, on the groups of eight digits it is applied to.\<close>

definition localeCompare :: "string \<Rightarrow> string \<Rightarrow> int" where
  "localeCompare a b = (if a < b then - 1 else if a = b then 0 else 1)"

text \<open>
  \<open>Array.prototype.sort\<close> with a comparison function: the sort is stable, and an element
  goes before the first one it does not compare greater than.
\<close>

fun insert_sorted :: "('a \<Rightarrow> 'a \<Rightarrow> int) \<Rightarrow> 'a \<Rightarrow> 'a list \<Rightarrow> 'a list" where
  "insert_sorted compareFn x [] = [x]"
| "insert_sorted compareFn x (y # ys) =
     (if compareFn x y \<le> 0 then x # y # ys else y # insert_sorted compareFn x ys)"

definition Array_sort :: "('a \<Rightarrow> 'a \<Rightarrow> int) \<Rightarrow> 'a list \<Rightarrow> 'a list" where
  "Array_sort compareFn xs = foldr (insert_sorted compareFn) xs []"

text \<open>The body of \<open>getLatestStormFilename\<close> once the listing is there.\<close>

definition year_matches :: "string \<Rightarrow> int \<Rightarrow> storm_file list" where
  "year_matches html year =
     map (\<lambda>m. \<lparr> filename = fst m, created = snd (snd m) \<rparr>)
       (filter (\<lambda>m. Number_of_digits (fst (snd m)) = year) (exec_all 0 html))"

definition latest_in_listing :: "string \<Rightarrow> int \<Rightarrow> string option" where
  "latest_in_listing html year =
     (let matches = year_matches html year
      in if length matches = 0 then None
         else map_option filename
                (first_element
                   (Array_sort (\<lambda>a b. localeCompare (created b) (created a)) matches)))"

section \<open>The caches and the requests to the outside\<close>

text \<open>
  What the server keeps between calls: the directory listing with the time it was
  fetched, and the names of the files in the cache directory.
\<close>

record directory_cache =
  html :: "string option"
  timestamp :: int

record server_state =
  directoryCache :: directory_cache
  cached_files :: "string set"

definition DIRECTORY_CACHE_TTL :: int where
  "DIRECTORY_CACHE_TTL = 3600000"

datatype error = ListingFetchFailed | DownloadFailed string | StreamFailed | GeocodeFailed

text \<open>
  What the outside answers while one request is served.  The functions over a year are
  the answers during the processing of that year: the clock, the directory listing (its
  text, or \<open>None\<close> for a status that is not a success), whether a download succeeds.
  \<open>file_rows\<close> is what gunzip and the CSV parser make of a cached file: its rows, or the
  failure of the stream.
\<close>

record world =
  now_cutoff :: int
  now_end :: int
  LocalTZA :: int
  geocode :: "string \<Rightarrow> error + geo option"
  clock :: "int \<Rightarrow> int"
  listing :: "int \<Rightarrow> string option"
  download :: "int \<Rightarrow> string \<Rightarrow> bool"
  file_rows :: "string \<Rightarrow> error + csv_record list"

definition fetch_listing :: "world \<Rightarrow> int \<Rightarrow> server_state \<Rightarrow> server_state \<times> (error + string)" where
  "fetch_listing w year st =
     (case listing w year of
        None \<Rightarrow> (st, Inl ListingFetchFailed)
      | Some h \<Rightarrow>
          (st\<lparr>directoryCache := \<lparr> html = Some h, timestamp = clock w year \<rparr>\<rparr>, Inr h))"

definition getNoaaDirectoryHtml ::
  "world \<Rightarrow> int \<Rightarrow> server_state \<Rightarrow> server_state \<times> (error + string)" where
  "getNoaaDirectoryHtml w year st =
     (case html (directoryCache st) of
        Some h \<Rightarrow>
          if h \<noteq> [] \<and> clock w year - timestamp (directoryCache st) < DIRECTORY_CACHE_TTL
          then (st, Inr h)
          else fetch_listing w year st
      | None \<Rightarrow> fetch_listing w year st)"

definition getLatestStormFilename ::
  "world \<Rightarrow> int \<Rightarrow> server_state \<Rightarrow> server_state \<times> (error + string option)" where
  "getLatestStormFilename w year st =
     (case getNoaaDirectoryHtml w year st of
        (st', Inl e) \<Rightarrow> (st', Inl e)
      | (st', Inr h) \<Rightarrow> (st', Inr (latest_in_listing h year)))"

definition ensureFileDownloaded ::
  "world \<Rightarrow> int \<Rightarrow> string \<Rightarrow> server_state \<Rightarrow> server_state \<times> (error + unit)" where
  "ensureFileDownloaded w year name st =
     (if name \<in> cached_files st then (st, Inr ())
      else if download w year name
           then (st\<lparr>cached_files := insert name (cached_files st)\<rparr>, Inr ())
           else (st, Inl (DownloadFailed name)))"

text \<open>
  \<open>getWindEventsForYear\<close>: the resolver, the download, then the rows of the file through
  \<open>row_event\<close>.  A failure of any of the three is the exception the function throws; the
  events gathered from a stream that fails are lost with it.
\<close>

definition getWindEventsForYear ::
  "world \<Rightarrow> int \<Rightarrow> geo \<Rightarrow> int \<Rightarrow> server_state \<Rightarrow> server_state \<times> (error + event list)" where
  "getWindEventsForYear w year g cutoff st =
     (case getLatestStormFilename w year st of
        (st1, Inl e) \<Rightarrow> (st1, Inl e)
      | (st1, Inr None) \<Rightarrow> (st1, Inr [])
      | (st1, Inr (Some name)) \<Rightarrow>
          (case ensureFileDownloaded w year name st1 of
             (st2, Inl e) \<Rightarrow> (st2, Inl e)
           | (st2, Inr _) \<Rightarrow>
               (let normalizedTargetCounty = normalizeName (county g);
                    normalizedTargetState = normalizeName (state g)
                in (case file_rows w name of
                      Inl e \<Rightarrow> (st2, Inl e)
                    | Inr rows \<Rightarrow>
                        (st2, Inr (List.map_filter
                                     (row_event normalizedTargetCounty normalizedTargetState cutoff)
                                     rows))))))"

section \<open>The aggregator\<close>

subsection \<open>Distances\<close>

definition toRad :: "real \<Rightarrow> real" where
  "toRad deg = deg * (pi / 180)"

text \<open>\<open>Math.atan2(y, x)\<close>, the angle of the point \<open>(x, y)\<close>.\<close>

definition atan2 :: "real \<Rightarrow> real \<Rightarrow> real" where
  "atan2 y x =
     (if 0 < x then arctan (y / x)
      else if x < 0 then (if 0 \<le> y then arctan (y / x) + pi else arctan (y / x) - pi)
      else if 0 < y then pi / 2
      else if y < 0 then - (pi / 2)
      else 0)"

definition haversineDistance :: "real \<Rightarrow> real \<Rightarrow> real \<Rightarrow> real \<Rightarrow> real" where
  "haversineDistance lat1 lon1 lat2 lon2 =
     (let R = 3958.8;
          dLat = toRad (lat2 - lat1);
          dLon = toRad (lon2 - lon1);
          a = sin (dLat / 2) * sin (dLat / 2)
                + cos (toRad lat1) * cos (toRad lat2) * sin (dLon / 2) * sin (dLon / 2);
          c = 2 * atan2 (sqrt a) (sqrt (1 - a))
      in R * c)"

subsection \<open>The radius\<close>

text \<open>
  A number or \<open>null\<close> in a condition: \<open>null\<close>, \<open>undefined\<close> and zero count as false.
\<close>

definition truthy :: "real option \<Rightarrow> bool" where
  "truthy v = (case v of None \<Rightarrow> False | Some x \<Rightarrow> x \<noteq> 0)"

text \<open>
  \<open>Math.max(0, Number(req.query.radius) || 0)\<close>, from the value of
  \<open>Number(req.query.radius)\<close>.
\<close>

definition radius_of_query :: "jsnum \<Rightarrow> jsnum" where
  "radius_of_query q =
     (case q of
        NaN \<Rightarrow> Fin 0
      | NegInf \<Rightarrow> Fin 0
      | Fin r \<Rightarrow> Fin (max 0 r)
      | PosInf \<Rightarrow> PosInf)"

definition positive :: "jsnum \<Rightarrow> bool" where
  "positive x = (case x of Fin r \<Rightarrow> 0 < r | PosInf \<Rightarrow> True | _ \<Rightarrow> False)"

text \<open>\<open>e.distanceMiles <= radiusMiles\<close>; a distance that was not set compares false.\<close>

definition distance_le :: "real option \<Rightarrow> jsnum \<Rightarrow> bool" where
  "distance_le d radiusMiles =
     (case d of
        None \<Rightarrow> False
      | Some x \<Rightarrow> (case radiusMiles of Fin r \<Rightarrow> x \<le> r | PosInf \<Rightarrow> True | _ \<Rightarrow> False))"

text \<open>The function under \<open>map\<close>, which sets the distance of an event in place.\<close>

definition set_distance :: "geo \<Rightarrow> event \<Rightarrow> event" where
  "set_distance g e =
     (case (lat e, lon e) of
        (Some la, Some lo) \<Rightarrow>
          if truthy (lat e) \<and> truthy (lon e)
          then e\<lparr>distanceMiles := Some (haversineDistance (geo_lat g) (geo_lon g) la lo)\<rparr>
          else e
      | _ \<Rightarrow> e)"

text \<open>The function under \<open>filter\<close>.\<close>

definition in_radius :: "jsnum \<Rightarrow> event \<Rightarrow> bool" where
  "in_radius radiusMiles e =
     (if \<not> truthy (lat e) \<or> \<not> truthy (lon e) then False
      else distance_le (distanceMiles e) radiusMiles)"

definition filteredEvents :: "geo \<Rightarrow> jsnum \<Rightarrow> event list \<Rightarrow> event list" where
  "filteredEvents g radiusMiles allEvents =
     (if positive radiusMiles
      then filter (in_radius radiusMiles) (map (set_distance g) allEvents)
      else allEvents)"

subsection \<open>Deduplication and the shape of a result\<close>

definition dedup_key :: "event \<Rightarrow> string" where
  "dedup_key e = formatDate (date e) @ ''-'' @ String_of_int (windSpeedMph e)"

text \<open>The filter with the set \<open>seen\<close>, which grows as the filter goes through the list.\<close>

fun unique_from :: "string set \<Rightarrow> event list \<Rightarrow> event list" where
  "unique_from seen [] = []"
| "unique_from seen (e # es) =
     (if dedup_key e \<in> seen then unique_from seen es
      else e # unique_from (insert (dedup_key e) seen) es)"

definition uniqueEvents :: "event list \<Rightarrow> event list" where
  "uniqueEvents evs = unique_from {} evs"

record result =
  r_date :: string
  r_windSpeedMph :: int
  r_eventType :: string
  r_distanceMiles :: "real option"

definition result_of :: "event \<Rightarrow> result" where
  "result_of e =
     \<lparr> r_date = formatDate (date e),
       r_windSpeedMph = windSpeedMph e,
       r_eventType = eventType e,
       r_distanceMiles =
         (case distanceMiles e of
            None \<Rightarrow> None
          | Some d \<Rightarrow> if truthy (distanceMiles e)
                      then Some (real_of_int (round_half_up (d * 10)) / 10) else None) \<rparr>"

subsection \<open>The loop over the years\<close>

text \<open>
  \<open>cutoff.setFullYear(cutoff.getFullYear() - 10)\<close> on the time of the request: the same
  month, day and time of day ten years earlier, in local time.
\<close>

definition cutoff_of :: "int \<Rightarrow> int \<Rightarrow> int" where
  "cutoff_of tza now =
     (let t = now + tza;
          ymd = civil_from_days (t div msPerDay);
          day = MakeDay (fst ymd - 10) (fst (snd ymd) - 1) (snd (snd ymd))
      in day * msPerDay + t mod msPerDay - tza)"

text \<open>
  The loop with its \<open>try\<close> and \<open>catch\<close>: the events of a year are appended, an exception is
  logged and the loop goes on with the next year.
\<close>

fun year_loop ::
  "world \<Rightarrow> geo \<Rightarrow> int \<Rightarrow> int list \<Rightarrow> server_state \<Rightarrow> event list
     \<Rightarrow> server_state \<times> event list" where
  "year_loop w g cutoff [] st allEvents = (st, allEvents)"
| "year_loop w g cutoff (year # years) st allEvents =
     (case getWindEventsForYear w year g cutoff st of
        (st', Inr events) \<Rightarrow> year_loop w g cutoff years st' (allEvents @ events)
      | (st', Inl err) \<Rightarrow> year_loop w g cutoff years st' allEvents)"

definition sortedEvents :: "event list \<Rightarrow> event list" where
  "sortedEvents allEvents = Array_sort (\<lambda>a b. date b - date a) allEvents"

subsection \<open>The handler\<close>

text \<open>A request: \<open>req.query.address\<close> and the value of \<open>Number(req.query.radius)\<close>.\<close>

record request =
  address :: "string option"
  radius :: jsnum

record payload =
  p_address :: string
  p_county :: "string option"
  p_state :: "string option"
  p_radiusMiles :: "real option"
  results :: "result list"

datatype response = Status400 | Status404 | Status500 | Status200 payload

text \<open>\<open>radiusMiles || null\<close> as the JSON body shows it.\<close>

definition radius_or_null :: "jsnum \<Rightarrow> real option" where
  "radius_or_null x = (case x of Fin r \<Rightarrow> if r = 0 then None else Some r | _ \<Rightarrow> None)"

text \<open>The events of a request, from the loop to the list the results are made of.\<close>

definition request_cutoff :: "world \<Rightarrow> int" where
  "request_cutoff w = cutoff_of (LocalTZA w) (now_cutoff w)"

definition request_years :: "world \<Rightarrow> int list" where
  "request_years w = [getUTCFullYear (request_cutoff w) .. getUTCFullYear (now_end w)]"

definition final_events :: "geo \<Rightarrow> jsnum \<Rightarrow> event list \<Rightarrow> event list" where
  "final_events g radiusMiles allEvents =
     uniqueEvents (filteredEvents g radiusMiles (sortedEvents allEvents))"

definition handler :: "world \<Rightarrow> request \<Rightarrow> server_state \<Rightarrow> server_state \<times> response" where
  "handler w req st =
     (let addr = trim (or_empty (address req)) in
      if addr = [] then (st, Status400)
      else
        let radiusMiles = radius_of_query (radius req) in
        (case geocode w addr of
           Inl e \<Rightarrow> (st, Status500)
         | Inr None \<Rightarrow> (st, Status404)
         | Inr (Some g) \<Rightarrow>
             (let cutoff = request_cutoff w;
                  loop = year_loop w g cutoff (request_years w) st [];
                  allEvents = snd loop
              in (fst loop,
                  Status200
                    \<lparr> p_address = displayName g,
                      p_county = county g,
                      p_state = state g,
                      p_radiusMiles = radius_or_null radiusMiles,
                      results = map result_of (final_events g radiusMiles allEvents) \<rparr>))))"

section \<open>Notions of the specification\<close>

text \<open>
  The tokens the resolver looks for, in the words of the specification: the fixed name
  with a year of four digits and a creation date of eight digits.
\<close>

definition listing_token :: "string \<Rightarrow> string \<Rightarrow> string \<Rightarrow> bool" where
  "listing_token t y c =
     (t = ''StormEvents_details-ftp_v1.0_d'' @ y @ ''_c'' @ c @ ''.csv.gz''
      \<and> length y = 4 \<and> list_all is_digit y \<and> length c = 8 \<and> list_all is_digit c)"

text \<open>
  Two notions the statements about the aggregator use: an event with its distance
  forgotten, and the pair the specification names as the key of the deduplication.
\<close>

definition without_distance :: "event \<Rightarrow> event" where
  "without_distance e = e\<lparr>distanceMiles := None\<rparr>"

definition date_speed :: "event \<Rightarrow> string \<times> int" where
  "date_speed e = (formatDate (date e), windSpeedMph e)"

section \<open>Inputs for the worked examples\<close>

text \<open>
  A row of a storm events file for Suffolk County, New York, with the columns the filter
  reads.
\<close>

definition example_row ::
  "string \<Rightarrow> string \<Rightarrow> string \<Rightarrow> string \<Rightarrow> string \<Rightarrow> string \<Rightarrow> csv_record" where
  "example_row evType beginDate magnitude magnitudeType beginLat beginLon =
     map_of
       [(''EVENT_TYPE'', evType), (''STATE'', ''NEW YORK''), (''CZ_NAME'', ''SUFFOLK''),
        (''BEGIN_DATE_TIME'', beginDate), (''MAGNITUDE'', magnitude),
        (''MAGNITUDE_TYPE'', magnitudeType), (''BEGIN_LAT'', beginLat),
        (''BEGIN_LON'', beginLon)]"

text \<open>A directory listing with two versions of the file of 2020 and one of 2021.\<close>

definition example_listing :: string where
  "example_listing =
     ''<a href=StormEvents_details-ftp_v1.0_d2020_c20230118.csv.gz>x</a> '' @
     ''<a href=StormEvents_details-ftp_v1.0_d2021_c20240716.csv.gz>x</a> '' @
     ''<a href=StormEvents_details-ftp_v1.0_d2020_c20240620.csv.gz>x</a> '' @
     ''<a href=StormEvents_locations-ftp_v1.0_d2020_c20250101.csv.gz>x</a>''"

text \<open>An event as \<open>getWindEventsForYear\<close> pushes it, with no distance yet.\<close>

definition example_event ::
  "int \<Rightarrow> int \<Rightarrow> string \<Rightarrow> real option \<Rightarrow> real option \<Rightarrow> event" where
  "example_event t mph ty la lo =
     \<lparr> date = t, windSpeedMph = mph, eventType = ty, lat = la, lon = lo,
       distanceMiles = None \<rparr>"

text \<open>The target of an address in Suffolk County, and a server that has just started.\<close>

definition example_geo :: geo where
  "example_geo =
     \<lparr> displayName = ''Suffolk County, New York, United States'',
       geo_lat = 40.9, geo_lon = - 72.8,
       county = Some ''Suffolk'', state = Some ''New York'' \<rparr>"

definition empty_state :: server_state where
  "empty_state = \<lparr> directoryCache = \<lparr> html = None, timestamp = 0 \<rparr>, cached_files = {} \<rparr>"

text \<open>
  A world in which the first years of a window fail one after the other: in 2019 the
  listing cannot be fetched, in 2020 the download fails, the file of 2021 is not a
  valid stream, and 2022 is served.  \<open>listed_state\<close> is the server once it has the
  listing.
\<close>

definition short_listing :: string where
  "short_listing =
     ''StormEvents_details-ftp_v1.0_d2020_c20240620.csv.gz '' @
     ''StormEvents_details-ftp_v1.0_d2021_c20240716.csv.gz '' @
     ''StormEvents_details-ftp_v1.0_d2022_c20250520.csv.gz''"

definition failing_world :: world where
  "failing_world =
     \<lparr> now_cutoff = 1793664000000, now_end = 1793664000000, LocalTZA = 0,
       geocode = (\<lambda>a. Inr (Some example_geo)),
       clock = (\<lambda>y. 1793664000000),
       listing = (\<lambda>y. if y = 2019 then None else Some short_listing),
       download = (\<lambda>y name. y \<noteq> 2020),
       file_rows = (\<lambda>name.
         if name = ''StormEvents_details-ftp_v1.0_d2021_c20240716.csv.gz'' then Inl StreamFailed
         else Inr [example_row ''High Wind'' ''06/30/2022 14:05:00'' ''58'' [] ''40.8'' ''-73.1'']) \<rparr>"

definition listed_state :: server_state where
  "listed_state = \<lparr> directoryCache = \<lparr> html = Some short_listing, timestamp = 1793664000000 \<rparr>,
      cached_files = {} \<rparr>"

text \<open>
  A world in which nothing fails: the listing names the files of 2020, 2021 and 2022,
  every download succeeds, the file of 2022 holds the given rows and the others none.
  The request is made on the third of November 2026, on a server whose local time is
  UTC.  \<open>listed_cache\<close> is the directory cache once the listing is there.
\<close>

definition example_world :: "csv_record list \<Rightarrow> world" where
  "example_world rows =
     \<lparr> now_cutoff = 1793664000000, now_end = 1793664000000, LocalTZA = 0,
       geocode = (\<lambda>a. Inr (Some example_geo)),
       clock = (\<lambda>y. 1793664000000),
       listing = (\<lambda>y. Some short_listing),
       download = (\<lambda>y name. True),
       file_rows = (\<lambda>name.
         if name = ''StormEvents_details-ftp_v1.0_d2022_c20250520.csv.gz'' then Inr rows
         else Inr []) \<rparr>"

definition listed_cache :: directory_cache where
  "listed_cache = \<lparr> html = Some short_listing, timestamp = 1793664000000 \<rparr>"

section \<open>The calendar on some dates\<close>

text \<open>
  The calendar functions on dates whose answers are known: the epoch, a leap day, the
  day after the 28th of February of a common year, day 0 of a month, a year below 100,
  and the cutoff ten years before a request, in UTC and five hours west of it.
\<close>

lemma formatDate_examples:
  "formatDate 0 = ''01/01/1970''"
  "formatDate (Date_UTC 2024 1 29) = ''02/29/2024''"
  "formatDate (Date_UTC 2023 1 29) = ''03/01/2023''"
  "formatDate (Date_UTC 2000 0 0) = ''12/31/1999''"
  "formatDate (Date_UTC 99 0 1) = ''01/01/1999''"
  by code_simp+

lemma cutoff_examples:
  "cutoff_of 0 1793664000000 = Date_UTC 2016 10 3"
  "cutoff_of (- 18000000) (Date_UTC 2026 0 1) = Date_UTC 2016 0 1"
  by code_simp+

section \<open>Properties of the filter and normaliser\<close>

subsection \<open>Wind speeds\<close>






subsection \<open>Names of counties\<close>









section \<open>Properties of \<open>Array.prototype.sort\<close>\<close>

lemma set_insert_sorted: "set (insert_sorted cmp x ys) = insert x (set ys)"
  by (induction ys) auto

lemma set_Array_sort: "set (Array_sort cmp xs) = set xs"
  by (induction xs) (auto simp: Array_sort_def set_insert_sorted)

lemma length_insert_sorted: "length (insert_sorted cmp x ys) = Suc (length ys)"
  by (induction ys) auto

lemma length_Array_sort: "length (Array_sort cmp xs) = length xs"
  by (induction xs) (auto simp: Array_sort_def length_insert_sorted)

lemma sorted_insert_sorted:
  fixes key :: "'a \<Rightarrow> 'k::linorder"
  assumes cmp: "\<And>a b. cmp a b \<le> 0 \<longleftrightarrow> key b \<le> key a"
    and "sorted_wrt (\<lambda>a b. key b \<le> key a) ys"
  shows "sorted_wrt (\<lambda>a b. key b \<le> key a) (insert_sorted cmp x ys)"
  using assms(2)
proof (induction ys)
  case Nil
  then show ?case by simp
next
  case (Cons y ys)
  show ?case
  proof (cases "cmp x y \<le> 0")
    case True
    then have "key y \<le> key x" using cmp by simp
    with Cons.prems True show ?thesis by (auto intro: order_trans)
  next
    case False
    then have "key x \<le> key y" using cmp by (meson linear)
    with Cons False show ?thesis by (auto simp: set_insert_sorted)
  qed
qed

lemma sorted_Array_sort:
  fixes key :: "'a \<Rightarrow> 'k::linorder"
  assumes cmp: "\<And>a b. cmp a b \<le> 0 \<longleftrightarrow> key b \<le> key a"
  shows "sorted_wrt (\<lambda>a b. key b \<le> key a) (Array_sort cmp xs)"
proof (induction xs)
  case Nil
  then show ?case by (simp add: Array_sort_def)
next
  case (Cons x xs)
  then show ?case
    using sorted_insert_sorted [of cmp key "Array_sort cmp xs" x] cmp
    by (simp add: Array_sort_def)
qed

lemma filter_insert_sorted:
  fixes key :: "'a \<Rightarrow> 'k::linorder"
  assumes cmp: "\<And>a b. cmp a b \<le> 0 \<longleftrightarrow> key b \<le> key a"
  shows "filter (\<lambda>y. key y = k) (insert_sorted cmp x ys)
       = (if key x = k then x # filter (\<lambda>y. key y = k) ys else filter (\<lambda>y. key y = k) ys)"
proof (induction ys)
  case Nil
  then show ?case by simp
next
  case (Cons y ys)
  show ?case
  proof (cases "cmp x y \<le> 0")
    case True
    then show ?thesis by simp
  next
    case False
    then have "key x \<noteq> key y" using cmp [of x y] by auto
    with False Cons show ?thesis by auto
  qed
qed

lemma filter_Array_sort:
  fixes key :: "'a \<Rightarrow> 'k::linorder"
  assumes cmp: "\<And>a b. cmp a b \<le> 0 \<longleftrightarrow> key b \<le> key a"
  shows "filter (\<lambda>y. key y = k) (Array_sort cmp xs) = filter (\<lambda>y. key y = k) xs"
proof (induction xs)
  case Nil
  then show ?case by (simp add: Array_sort_def)
next
  case (Cons x xs)
  have "Array_sort cmp (x # xs) = insert_sorted cmp x (Array_sort cmp xs)"
    by (simp add: Array_sort_def)
  then show ?case
    using Cons filter_insert_sorted [of cmp key k x "Array_sort cmp xs"] cmp by simp
qed

lemma date_cmp: "(date b - date a \<le> 0) \<longleftrightarrow> (date b \<le> date a)" for a b :: event
  by simp

lemma created_cmp: "localeCompare (created b) (created a) \<le> 0 \<longleftrightarrow> created b \<le> created a"
  for a b :: storm_file
  by (auto simp: localeCompare_def)

lemma first_element_sorted:
  fixes key :: "'a \<Rightarrow> 'k::linorder"
  assumes "sorted_wrt (\<lambda>a b. key b \<le> key a) xs" "first_element xs = Some h" "x \<in> set xs"
  shows "key x \<le> key h"
  using assms by (cases xs) (auto simp: first_element_def)

section \<open>Properties of the resolver\<close>

lemma len4: "length y = 4 \<Longrightarrow> \<exists>a b c d. y = [a, b, c, d]"
  by (cases y; cases "tl y"; cases "tl (tl y)"; cases "tl (tl (tl y))") auto

lemma len8: "length y = 8 \<Longrightarrow> \<exists>a b c d e f g h. y = [a, b, c, d, e, f, g, h]"
proof -
  assume l: "length y = 8"
  then have "length (take 4 y) = 4" "length (drop 4 y) = 4" by auto
  then obtain a b c d e f g h where "take 4 y = [a,b,c,d]" "drop 4 y = [e,f,g,h]"
    using len4 by metis
  then have "y = [a,b,c,d] @ [e,f,g,h]" by (metis append_take_drop_id)
  then show ?thesis by auto
qed

lemma match_here_token:
  assumes "listing_token t y c"
  shows "match_here (t @ r) = Some (t, y, c)"
proof -
  obtain y1 y2 y3 y4 where y: "y = [y1, y2, y3, y4]"
    using assms len4 unfolding listing_token_def by blast
  obtain c1 c2 c3 c4 c5 c6 c7 c8 where c: "c = [c1, c2, c3, c4, c5, c6, c7, c8]"
    using assms len8 unfolding listing_token_def by blast
  show ?thesis
    using assms unfolding listing_token_def y c
    by (simp add: match_here_def)
qed

lemma match_here_Some:
  assumes "match_here s = Some (t, y, c)"
  shows "listing_token t y c \<and> prefix t s"
proof -
  let ?P = "''StormEvents_details-ftp_v1.0_d''"
  from assms have p: "prefix ?P s"
    and y: "y = take 4 (drop 30 s)" "length y = 4" "list_all is_digit y"
    and u: "prefix ''_c'' (drop 34 s)"
    and c: "c = take 8 (drop 36 s)" "length c = 8" "list_all is_digit c"
    and g: "prefix ''.csv.gz'' (drop 44 s)"
    and t: "t = take 51 s"
    by (auto simp: match_here_def Let_def split: if_splits)
  from p obtain r1 where r1: "s = ?P @ r1" by (auto simp: prefix_def)
  from y r1 have "take 4 r1 = y" by simp
  then obtain r2 where r2: "r1 = y @ r2" by (metis append_take_drop_id)
  from u r1 r2 y(2) have "prefix ''_c'' r2" by simp
  then obtain r3 where r3: "r2 = ''_c'' @ r3" by (auto simp: prefix_def)
  from c r1 r2 r3 y(2) have "take 8 r3 = c" by simp
  then obtain r4 where r4: "r3 = c @ r4" by (metis append_take_drop_id)
  from g r1 r2 r3 r4 y(2) c(2) have "prefix ''.csv.gz'' r4" by simp
  then obtain r5 where r5: "r4 = ''.csv.gz'' @ r5" by (auto simp: prefix_def)
  have s: "s = (?P @ y @ ''_c'' @ c @ ''.csv.gz'') @ r5"
    using r1 r2 r3 r4 r5 by simp
  have "length (?P @ y @ ''_c'' @ c @ ''.csv.gz'') = 51"
    using y(2) c(2) by simp
  then have "t = ?P @ y @ ''_c'' @ c @ ''.csv.gz''"
    using t s by (metis append_eq_conv_conj)
  then show ?thesis
    using y(2,3) c(2,3) s by (auto simp: listing_token_def prefix_def)
qed

lemma match_here_iff:
  "match_here s = Some (t, y, c) \<longleftrightarrow> listing_token t y c \<and> prefix t s"
  using match_here_Some match_here_token by (auto simp: prefix_def)

lemma digit_not_S: "is_digit x \<Longrightarrow> x \<noteq> CHR ''S''"
  by (auto simp: is_digit_def less_eq_char_def)

lemma token_shape:
  assumes "listing_token t y c"
  shows "length t = 51" "\<exists>u. t = CHR ''S'' # u \<and> CHR ''S'' \<notin> set u"
proof -
  show "length t = 51" using assms by (auto simp: listing_token_def)
  have "CHR ''S'' \<notin> set y" "CHR ''S'' \<notin> set c"
    using assms digit_not_S by (auto simp: listing_token_def list_all_iff)
  then show "\<exists>u. t = CHR ''S'' # u \<and> CHR ''S'' \<notin> set u"
    using assms by (auto simp: listing_token_def)
qed

lemma match_here_hd:
  "match_here s = Some m \<Longrightarrow> \<exists>r. s = CHR ''S'' # r"
  by (cases m) (auto simp: match_here_def Let_def prefix_def split: if_splits)

lemma match_here_Nil: "match_here [] = None"
  by (simp add: match_here_def)

text \<open>No match starts inside a match, so the search loses none by going on after it.\<close>

lemma no_match_inside:
  assumes m: "match_here (c # cs) = Some m" and i: "i < length (fst m) - 1"
  shows "match_here (drop i cs) = None"
proof (rule ccontr)
  assume "match_here (drop i cs) \<noteq> None"
  then obtain m' where "match_here (drop i cs) = Some m'" by auto
  then obtain r where r: "drop i cs = CHR ''S'' # r" using match_here_hd by blast
  obtain t y d where mt: "m = (t, y, d)" by (cases m) auto
  with m have tok: "listing_token t y d" and pre: "prefix t (c # cs)"
    using match_here_Some by auto
  from token_shape [OF tok] obtain u where u: "t = CHR ''S'' # u" "CHR ''S'' \<notin> set u"
      and len: "length t = 51" by auto
  from pre u obtain z where z: "cs = u @ z" by (auto simp: prefix_def)
  from i mt u have iu: "i < length u" by simp
  with z have "drop i cs ! 0 = u ! i"
    by (simp add: nth_append)
  with r have "u ! i = CHR ''S''" by simp
  with iu u(2) show False by (metis nth_mem)
qed

lemma set_exec_all:
  assumes "\<forall>i<k. match_here (drop i s) = None"
  shows "set (exec_all k s) = {m. \<exists>i. match_here (drop i s) = Some m}"
  using assms
proof (induction k s rule: exec_all.induct)
  case (1 k)
  then show ?case by (simp add: match_here_Nil)
next
  case (2 k c cs)
  have a: "\<forall>i<k. match_here (drop i cs) = None"
    using "2.prems" by (metis Suc_less_eq drop_Suc_Cons)
  have b: "match_here (c # cs) = None"
    using "2.prems" by (metis drop0 zero_less_Suc)
  have "{m. \<exists>i. match_here (drop i (c # cs)) = Some m} = {m. \<exists>i. match_here (drop i cs) = Some m}"
  proof (intro set_eqI iffI; clarify)
    fix m i assume h: "match_here (drop i (c # cs)) = Some m"
    with b obtain j where "i = Suc j" by (cases i) auto
    with h show "\<exists>i. match_here (drop i cs) = Some m" by auto
  next
    fix m i assume "match_here (drop i cs) = Some m"
    then have "match_here (drop (Suc i) (c # cs)) = Some m" by simp
    then show "\<exists>i. match_here (drop i (c # cs)) = Some m" by blast
  qed
  with "2.IH" [OF a] show ?case by simp
next
  case (3 c cs)
  have shift: "{m. \<exists>i. match_here (drop i (c # cs)) = Some m}
      = {m. match_here (c # cs) = Some m} \<union> {m. \<exists>i. match_here (drop i cs) = Some m}"
  proof (intro set_eqI iffI; clarsimp)
    fix a b d i assume h: "match_here (drop i (c # cs)) = Some (a, b, d)"
      and n: "\<forall>i. match_here (drop i cs) \<noteq> Some (a, b, d)"
    show "match_here (c # cs) = Some (a, b, d)"
    proof (cases i)
      case 0 with h show ?thesis by simp
    next
      case (Suc j) with h n show ?thesis by auto
    qed
  next
    fix a b d assume "match_here (c # cs) = Some (a, b, d) \<or> (\<exists>i. match_here (drop i cs) = Some (a, b, d))"
    then show "\<exists>i. match_here (drop i (c # cs)) = Some (a, b, d)"
    proof
      assume "match_here (c # cs) = Some (a, b, d)"
      then have "match_here (drop 0 (c # cs)) = Some (a, b, d)" by simp
      then show ?thesis by blast
    next
      assume "\<exists>i. match_here (drop i cs) = Some (a, b, d)"
      then obtain i where "match_here (drop (Suc i) (c # cs)) = Some (a, b, d)" by auto
      then show ?thesis by blast
    qed
  qed
  show ?case
  proof (cases "match_here (c # cs)")
    case None
    with "3.IH"(1) [OF None] shift show ?thesis by simp
  next
    case (Some m)
    have "\<forall>i<length (fst m) - 1. match_here (drop i cs) = None"
      using no_match_inside [OF Some] by blast
    from "3.IH"(2) [OF Some this] Some shift show ?thesis by auto
  qed
qed

lemma sublist_iff_drop: "sublist t s \<longleftrightarrow> (\<exists>i. prefix t (drop i s))"
proof
  assume "sublist t s"
  then obtain ps ss where "s = ps @ t @ ss" by (auto simp: sublist_def)
  then have "prefix t (drop (length ps) s)" by simp
  then show "\<exists>i. prefix t (drop i s)" ..
next
  assume "\<exists>i. prefix t (drop i s)"
  then obtain i z where "drop i s = t @ z" by (auto simp: prefix_def)
  then have "s = take i s @ t @ z" by (metis append_take_drop_id)
  then show "sublist t s" by (auto simp: sublist_def)
qed

lemma exec_all_tokens:
  "set (exec_all 0 s) = {(t, y, c). listing_token t y c \<and> sublist t s}"
  using set_exec_all [of 0 s]
  by (auto simp: match_here_iff sublist_iff_drop)

lemma set_year_matches:
  "set (year_matches h yr)
     = {\<lparr> filename = t, created = c \<rparr> | t y c.
          listing_token t y c \<and> sublist t h \<and> Number_of_digits y = yr}"
  unfolding year_matches_def set_map set_filter exec_all_tokens
  by (auto simp: image_iff)

lemma latest_in_listing_None:
  "latest_in_listing h yr = None \<longleftrightarrow> year_matches h yr = []"
proof (cases "year_matches h yr = []")
  case True
  then show ?thesis by (simp add: latest_in_listing_def)
next
  case False
  then have "length (Array_sort (\<lambda>a b. localeCompare (created b) (created a)) (year_matches h yr)) \<noteq> 0"
    by (simp add: length_Array_sort)
  then show ?thesis
    using False by (auto simp: latest_in_listing_def first_element_def split: list.splits)
qed

lemma latest_in_listing_Some:
  assumes "latest_in_listing h yr = Some f"
  shows "\<exists>m \<in> set (year_matches h yr). filename m = f
           \<and> (\<forall>m' \<in> set (year_matches h yr). created m' \<le> created m)"
proof -
  let ?cmp = "\<lambda>a b. localeCompare (created b) (created a)"
  let ?s = "Array_sort ?cmp (year_matches h yr)"
  from assms obtain m where m: "first_element ?s = Some m" "filename m = f"
    by (auto simp: latest_in_listing_def Let_def split: if_splits)
  then have "m \<in> set ?s"
    by (auto simp: first_element_def split: list.splits)
  then have mem: "m \<in> set (year_matches h yr)"
    by (simp add: set_Array_sort)
  have srt: "sorted_wrt (\<lambda>a b. created b \<le> created a) ?s"
    by (rule sorted_Array_sort) (rule created_cmp)
  have "\<forall>m' \<in> set (year_matches h yr). created m' \<le> created m"
  proof
    fix m' assume "m' \<in> set (year_matches h yr)"
    then have "m' \<in> set ?s" by (simp add: set_Array_sort)
    with srt m(1) show "created m' \<le> created m"
      by (rule first_element_sorted)
  qed
  with mem m(2) show ?thesis by blast
qed

text \<open>
  Claim C9.  For a listing \<open>h\<close> and a year \<open>yr\<close>, the resolver returns nothing exactly
  when no token of the listing carries that year; and a name it returns is a token of
  the listing that carries the year and whose creation date is, in the order of strings,
  at least that of every token of the listing with the year.
\<close>

theorem resolver_picks_latest:
  "(latest_in_listing h yr = None \<longleftrightarrow>
      \<not> (\<exists>t y c. listing_token t y c \<and> sublist t h \<and> Number_of_digits y = yr))
   \<and> (\<forall>f. latest_in_listing h yr = Some f \<longrightarrow>
        (\<exists>y c. listing_token f y c \<and> sublist f h \<and> Number_of_digits y = yr
           \<and> (\<forall>t' y' c'. listing_token t' y' c' \<and> sublist t' h \<and> Number_of_digits y' = yr
                 \<longrightarrow> c' \<le> c)))"
proof (intro conjI allI impI)
  have "year_matches h yr = [] \<longleftrightarrow> set (year_matches h yr) = {}" by simp
  also have "\<dots> \<longleftrightarrow> \<not> (\<exists>t y c. listing_token t y c \<and> sublist t h \<and> Number_of_digits y = yr)"
    unfolding set_year_matches by auto
  finally show "latest_in_listing h yr = None \<longleftrightarrow>
      \<not> (\<exists>t y c. listing_token t y c \<and> sublist t h \<and> Number_of_digits y = yr)"
    using latest_in_listing_None by simp
next
  fix f assume "latest_in_listing h yr = Some f"
  from latest_in_listing_Some [OF this] obtain m where
    m: "m \<in> set (year_matches h yr)" "filename m = f"
      "\<forall>m' \<in> set (year_matches h yr). created m' \<le> created m" by blast
  from m(1,2) obtain y c where yc: "listing_token f y c" "sublist f h" "Number_of_digits y = yr"
      "created m = c"
    unfolding set_year_matches by auto
  have "\<forall>t' y' c'. listing_token t' y' c' \<and> sublist t' h \<and> Number_of_digits y' = yr \<longrightarrow> c' \<le> c"
  proof (intro allI impI)
    fix t' y' c' assume "listing_token t' y' c' \<and> sublist t' h \<and> Number_of_digits y' = yr"
    then have "\<lparr> filename = t', created = c' \<rparr> \<in> set (year_matches h yr)"
      unfolding set_year_matches by blast
    with m(3) yc(4) show "c' \<le> c" by fastforce
  qed
  with yc show "\<exists>y c. listing_token f y c \<and> sublist f h \<and> Number_of_digits y = yr
           \<and> (\<forall>t' y' c'. listing_token t' y' c' \<and> sublist t' h \<and> Number_of_digits y' = yr
                 \<longrightarrow> c' \<le> c)"
    by blast
qed

text \<open>
  In the example listing the later of the two files of 2020 is chosen, a file of another
  kind with a still later date is not a token, and 2019 has no file.
\<close>

theorem resolver_picks_latest_witness:
  "latest_in_listing example_listing 2020
     = Some ''StormEvents_details-ftp_v1.0_d2020_c20240620.csv.gz''
   \<and> latest_in_listing example_listing 2019 = None
   \<and> \<not> (\<exists>t y c. listing_token t y c \<and> sublist t example_listing
           \<and> Number_of_digits y = 2019)"
proof -
  have e: "latest_in_listing example_listing 2020
        = Some ''StormEvents_details-ftp_v1.0_d2020_c20240620.csv.gz''
      \<and> latest_in_listing example_listing 2019 = None"
    by code_simp
  then show ?thesis
    using resolver_picks_latest [of example_listing 2019] by simp
qed

section \<open>Properties of the aggregator\<close>

subsection \<open>Order\<close>

lemma subseq_in_set: "subseq xs ys \<Longrightarrow> x \<in> set xs \<Longrightarrow> x \<in> set ys"
  by (induction rule: list_emb.induct) auto

lemma sorted_wrt_subseq:
  "subseq xs ys \<Longrightarrow> sorted_wrt P ys \<Longrightarrow> sorted_wrt P xs"
proof (induction rule: list_emb.induct)
  case (list_emb_Nil ys)
  then show ?case by simp
next
  case (list_emb_Cons xs ys y)
  then show ?case by simp
next
  case (list_emb_Cons2 x y xs ys)
  then show ?case using subseq_in_set [of xs ys] by auto
qed

lemma set_distance_fields:
  "without_distance (set_distance g e) = without_distance e"
  "date (set_distance g e) = date e"
  "windSpeedMph (set_distance g e) = windSpeedMph e"
  "eventType (set_distance g e) = eventType e"
  "lat (set_distance g e) = lat e"
  "lon (set_distance g e) = lon e"
  by (auto simp: set_distance_def without_distance_def split: option.splits)

lemma subseq_unique_from: "subseq (unique_from seen xs) xs"
  by (induction xs arbitrary: seen) auto

lemma filteredEvents_subseq:
  "subseq (map without_distance (filteredEvents g r xs)) (map without_distance xs)"
proof (cases "positive r")
  case True
  have "subseq (filter (in_radius r) (map (set_distance g) xs)) (map (set_distance g) xs)"
    by simp
  then have "subseq (map without_distance (filter (in_radius r) (map (set_distance g) xs)))
      (map without_distance (map (set_distance g) xs))"
    by (rule subseq_map)
  moreover have "map without_distance (map (set_distance g) xs) = map without_distance xs"
    by (simp add: set_distance_fields)
  ultimately have "subseq (map without_distance (filter (in_radius r) (map (set_distance g) xs)))
      (map without_distance xs)"
    by (simp only:)
  then show ?thesis using True by (simp only: filteredEvents_def if_True)
next
  case False
  then show ?thesis by (simp add: filteredEvents_def)
qed

lemma final_events_subseq:
  "subseq (map without_distance (final_events g r acc))
          (map without_distance (sortedEvents acc))"
proof -
  have "subseq (map without_distance (final_events g r acc))
      (map without_distance (filteredEvents g r (sortedEvents acc)))"
    unfolding final_events_def uniqueEvents_def
    by (rule subseq_map) (rule subseq_unique_from)
  then show ?thesis
    using filteredEvents_subseq subseq_order.trans by blast
qed

lemma date_without_distance: "date (without_distance e) = date e"
  by (simp add: without_distance_def)

lemma sortedEvents_sorted: "sorted_wrt (\<lambda>a b. date b \<le> date a) (sortedEvents acc)"
  unfolding sortedEvents_def by (rule sorted_Array_sort) simp

lemma sortedEvents_stable:
  "filter (\<lambda>e. date e = d) (sortedEvents acc) = filter (\<lambda>e. date e = d) acc"
  unfolding sortedEvents_def by (rule filter_Array_sort) simp

lemma set_sortedEvents: "set (sortedEvents acc) = set acc"
  by (simp add: sortedEvents_def set_Array_sort)

text \<open>
  Claim C7.  The events the results are made of are in descending order of their dates,
  every earlier one against every later one and so each against the next.  The sort
  keeps the events of one date in the order in which they were accumulated.  The radius
  filter and the deduplication only leave events out: up to the distance the filter has
  written into them, the final events are a subsequence of the sorted ones, and those of
  one date a subsequence of the accumulated events of that date.
\<close>

theorem results_descending_and_stable:
  "sorted_wrt (\<lambda>a b. date b \<le> date a) (final_events g r acc)
   \<and> filter (\<lambda>e. date e = d) (sortedEvents acc) = filter (\<lambda>e. date e = d) acc
   \<and> subseq (map without_distance (final_events g r acc))
        (map without_distance (sortedEvents acc))
   \<and> subseq (filter (\<lambda>e. date e = d) (map without_distance (final_events g r acc)))
        (map without_distance (filter (\<lambda>e. date e = d) acc))"
proof -
  let ?f = "map without_distance (final_events g r acc)"
  let ?s = "map without_distance (sortedEvents acc)"
  have sub: "subseq ?f ?s" by (rule final_events_subseq)
  have "sorted_wrt (\<lambda>a b. date b \<le> date a) ?s"
    using sortedEvents_sorted [of acc]
    by (simp add: sorted_wrt_map date_without_distance)
  with sub have "sorted_wrt (\<lambda>a b. date b \<le> date a) ?f"
    by (rule sorted_wrt_subseq)
  then have 1: "sorted_wrt (\<lambda>a b. date b \<le> date a) (final_events g r acc)"
    by (simp add: sorted_wrt_map date_without_distance)
  have "subseq (filter (\<lambda>e. date e = d) ?f) (filter (\<lambda>e. date e = d) ?s)"
    using sub by (rule subseq_filter)
  moreover have "filter (\<lambda>e. date e = d) ?s
      = map without_distance (filter (\<lambda>e. date e = d) (sortedEvents acc))"
    by (simp add: filter_map comp_def date_without_distance)
  ultimately have 4: "subseq (filter (\<lambda>e. date e = d) ?f)
      (map without_distance (filter (\<lambda>e. date e = d) acc))"
    by (simp add: sortedEvents_stable)
  show ?thesis
    using 1 sub 4 sortedEvents_stable by blast
qed

subsection \<open>Deduplication\<close>

lemma digit_char: "n < 10 \<Longrightarrow> is_digit (char_of (48 + n))" for n :: nat
proof -
  assume "n < 10"
  then have "n \<in> {0,1,2,3,4,5,6,7,8,9}" by auto
  then show ?thesis
    by (auto simp: is_digit_def less_eq_char_def)
qed

lemma digit_val_char: "n < 10 \<Longrightarrow> digit_val (char_of (48 + n)) = n" for n :: nat
  by (simp add: digit_val_def)

lemma string_of_nat_digits: "list_all is_digit (string_of_nat n)"
proof (induction n rule: string_of_nat.induct)
  case (1 n)
  show ?case
  proof (cases "n < 10")
    case True
    then show ?thesis by (subst string_of_nat.simps) (simp add: digit_char)
  next
    case False
    then show ?thesis
      using 1 by (subst string_of_nat.simps) (simp add: digit_char)
  qed
qed

lemma string_of_nat_nonempty: "string_of_nat n \<noteq> []"
  by (subst string_of_nat.simps) simp

lemma digits_val_snoc: "digits_val (ds @ [c]) = 10 * digits_val ds + digit_val c"
  by (simp add: digits_val_def)

lemma digits_val_string_of_nat: "digits_val (string_of_nat n) = n"
proof (induction n rule: string_of_nat.induct)
  case (1 n)
  show ?case
  proof (cases "n < 10")
    case True
    then show ?thesis
      by (subst string_of_nat.simps) (simp add: digits_val_def digit_val_char)
  next
    case False
    then have "digits_val (string_of_nat n)
        = 10 * digits_val (string_of_nat (n div 10)) + digit_val (char_of (48 + n mod 10))"
      by (subst string_of_nat.simps) (simp add: digits_val_snoc)
    with False 1 show ?thesis by (simp add: digit_val_char)
  qed
qed

lemma string_of_nat_inj: "string_of_nat a = string_of_nat b \<Longrightarrow> a = b"
  by (metis digits_val_string_of_nat)

lemma minus_not_digit: "\<not> is_digit CHR ''-''"
  by (simp add: is_digit_def less_eq_char_def)

lemma last_string_of_nat: "is_digit (last (string_of_nat n))"
  using string_of_nat_digits [of n] string_of_nat_nonempty [of n]
  by (simp add: list_all_iff)

lemma String_of_int_last: "String_of_int i \<noteq> [] \<and> is_digit (last (String_of_int i))"
  by (simp add: String_of_int_def string_of_nat_nonempty last_string_of_nat)

lemma formatDate_last: "formatDate d \<noteq> [] \<and> is_digit (last (formatDate d))"
  using String_of_int_last by (simp add: formatDate_def Let_def)

text \<open>
  A text that ends with a digit, a hyphen and the digits of a whole number can be read
  back in one way only.
\<close>

lemma rev_digits_split:
  assumes "list_all is_digit ds" "list_all is_digit es"
    "rev ds @ CHR ''-'' # r = rev es @ CHR ''-'' # s"
  shows "ds = es \<and> r = s"
proof -
  have "takeWhile is_digit (rev xs @ CHR ''-'' # t) = rev xs" if "list_all is_digit xs" for xs t
  proof -
    from that have "\<And>x. x \<in> set (rev xs) \<Longrightarrow> is_digit x" by (simp add: list_all_iff)
    then have "takeWhile is_digit (rev xs @ CHR ''-'' # t)
        = rev xs @ takeWhile is_digit (CHR ''-'' # t)"
      by (rule takeWhile_append2)
    then show ?thesis by (simp add: minus_not_digit)
  qed
  from this [OF assms(1), of r] this [OF assms(2), of s]
  have "takeWhile is_digit (rev ds @ CHR ''-'' # r) = rev ds"
    and "takeWhile is_digit (rev es @ CHR ''-'' # s) = rev es" by auto
  then have "rev ds = rev es" using assms(3) by simp
  then show ?thesis using assms(3) by simp
qed

lemma key_split:
  assumes F: "F \<noteq> []" "is_digit (last F)" and G: "G \<noteq> []" "is_digit (last G)"
    and eq: "F @ CHR ''-'' # String_of_int a = G @ CHR ''-'' # String_of_int b"
  shows "F = G \<and> a = b"
proof -
  let ?da = "string_of_nat (nat \<bar>a\<bar>)" and ?db = "string_of_nat (nat \<bar>b\<bar>)"
  let ?sa = "if a < 0 then [CHR ''-''] else []" and ?sb = "if b < 0 then [CHR ''-''] else []"
  have sa: "String_of_int a = ?sa @ ?da" and sb: "String_of_int b = ?sb @ ?db"
    by (auto simp: String_of_int_def abs_if)
  from eq have "rev (F @ CHR ''-'' # String_of_int a) = rev (G @ CHR ''-'' # String_of_int b)"
    by simp
  then have r: "rev ?da @ CHR ''-'' # (if a < 0 then CHR ''-'' # rev F else rev F)
      = rev ?db @ CHR ''-'' # (if b < 0 then CHR ''-'' # rev G else rev G)"
    unfolding sa sb by (simp split: if_splits)
  from rev_digits_split [OF string_of_nat_digits string_of_nat_digits r]
  have d: "?da = ?db"
    and t: "(if a < 0 then CHR ''-'' # rev F else rev F) = (if b < 0 then CHR ''-'' # rev G else rev G)"
    by auto
  have hF: "hd (rev F) \<noteq> CHR ''-''" using F minus_not_digit by (metis hd_rev)
  have hG: "hd (rev G) \<noteq> CHR ''-''" using G minus_not_digit by (metis hd_rev)
  have nF: "rev F \<noteq> []" and nG: "rev G \<noteq> []" using F G by auto
  have sgn: "(a < 0) = (b < 0)"
  proof (rule ccontr)
    assume "(a < 0) \<noteq> (b < 0)"
    then consider "a < 0" "\<not> b < 0" | "\<not> a < 0" "b < 0" by blast
    then show False
    proof cases
      case 1
      with t have "rev G = CHR ''-'' # rev F" by simp
      with hG show False by simp
    next
      case 2
      with t have "rev F = CHR ''-'' # rev G" by simp
      with hF show False by simp
    qed
  qed
  with t have FG: "rev F = rev G" by (simp split: if_splits)
  from d have "nat \<bar>a\<bar> = nat \<bar>b\<bar>" by (rule string_of_nat_inj)
  with sgn have "a = b" by (auto simp: abs_if split: if_splits)
  with FG show ?thesis by simp
qed

lemma dedup_key_eq:
  "dedup_key e = dedup_key e' \<longleftrightarrow> date_speed e = date_speed e'"
proof
  assume "dedup_key e = dedup_key e'"
  then have "formatDate (date e) @ CHR ''-'' # String_of_int (windSpeedMph e)
      = formatDate (date e') @ CHR ''-'' # String_of_int (windSpeedMph e')"
    by (simp add: dedup_key_def)
  from key_split [OF _ _ _ _ this] formatDate_last
  show "date_speed e = date_speed e'" by (simp add: date_speed_def)
next
  assume "date_speed e = date_speed e'"
  then show "dedup_key e = dedup_key e'" by (simp add: date_speed_def dedup_key_def)
qed

lemma unique_from_keys:
  "e \<in> set (unique_from seen xs) \<Longrightarrow> dedup_key e \<notin> seen"
  by (induction xs arbitrary: seen) (auto split: if_splits)

lemma unique_from_distinct: "distinct (map dedup_key (unique_from seen xs))"
proof (induction xs arbitrary: seen)
  case Nil
  then show ?case by simp
next
  case (Cons x xs)
  show ?case
  proof (cases "dedup_key x \<in> seen")
    case True
    then show ?thesis using Cons by simp
  next
    case False
    have "dedup_key x \<notin> dedup_key ` set (unique_from (insert (dedup_key x) seen) xs)"
      using unique_from_keys by fastforce
    then show ?thesis using False Cons by simp
  qed
qed

lemma unique_from_find:
  "find (\<lambda>e. dedup_key e = k) (unique_from seen xs)
     = (if k \<in> seen then None else find (\<lambda>e. dedup_key e = k) xs)"
proof (induction xs arbitrary: seen)
  case Nil
  then show ?case by simp
next
  case (Cons x xs)
  then show ?case by auto
qed

lemma find_key_pair:
  "find (\<lambda>e. date_speed e = date_speed a) xs = find (\<lambda>e. dedup_key e = dedup_key a) xs"
  by (simp add: dedup_key_eq)

text \<open>
  Claim C6.  Two events have the same key exactly when their formatted dates and their
  wind speeds are equal, whatever their types and coordinates.  The deduplication only
  leaves events out; no pair of date and speed stays twice; for every pair the event
  kept is the first with that pair in the list it is given, if there is one; and so
  every pair of the list is still there.
\<close>

theorem dedup_keeps_first:
  "(dedup_key e = dedup_key e' \<longleftrightarrow>
      formatDate (date e) = formatDate (date e') \<and> windSpeedMph e = windSpeedMph e')
   \<and> subseq (uniqueEvents xs) xs
   \<and> distinct (map date_speed (uniqueEvents xs))
   \<and> find (\<lambda>x. date_speed x = date_speed e) (uniqueEvents xs)
       = find (\<lambda>x. date_speed x = date_speed e) xs
   \<and> (\<forall>x \<in> set xs. \<exists>y \<in> set (uniqueEvents xs). date_speed y = date_speed x)"
proof (intro conjI)
  show "dedup_key e = dedup_key e' \<longleftrightarrow>
      formatDate (date e) = formatDate (date e') \<and> windSpeedMph e = windSpeedMph e'"
    using dedup_key_eq [of e e'] by (simp add: date_speed_def)
  show "subseq (uniqueEvents xs) xs"
    by (simp add: uniqueEvents_def subseq_unique_from)
  have "distinct (map dedup_key (uniqueEvents xs))"
    by (simp add: uniqueEvents_def unique_from_distinct)
  then show "distinct (map date_speed (uniqueEvents xs))"
    by (simp add: distinct_map inj_on_def dedup_key_eq)
  show f: "find (\<lambda>x. date_speed x = date_speed e) (uniqueEvents xs)
       = find (\<lambda>x. date_speed x = date_speed e) xs" for e
    by (simp add: find_key_pair uniqueEvents_def unique_from_find)
  show "\<forall>x \<in> set xs. \<exists>y \<in> set (uniqueEvents xs). date_speed y = date_speed x"
  proof
    fix x assume "x \<in> set xs"
    then obtain z where "find (\<lambda>y. date_speed y = date_speed x) xs = Some z"
      by (cases "find (\<lambda>y. date_speed y = date_speed x) xs") (auto simp: find_None_iff)
    then have "find (\<lambda>y. date_speed y = date_speed x) (uniqueEvents xs) = Some z"
      using f by simp
    then show "\<exists>y \<in> set (uniqueEvents xs). date_speed y = date_speed x"
      by (auto simp: find_Some_iff)
  qed
qed

text \<open>
  Three events of one day: the second repeats the date and speed of the first with
  another type and place and is dropped, the third has another speed and is kept.
\<close>

theorem dedup_keeps_first_witness:
  "uniqueEvents
     [example_event 1625011200000 58 ''Thunderstorm Wind'' (Some 40.8) (Some (- 73.1)),
      example_event 1625011200000 58 ''High Wind'' None None,
      example_event 1625011200000 60 ''High Wind'' None None]
   = [example_event 1625011200000 58 ''Thunderstorm Wind'' (Some 40.8) (Some (- 73.1)),
      example_event 1625011200000 60 ''High Wind'' None None]
   \<and> dedup_key (example_event 1625011200000 58 ''High Wind'' None None) = ''06/30/2021-58''
   \<and> find (\<lambda>x. date_speed x = date_speed (example_event 1625011200000 58 ''High Wind'' None None))
        (uniqueEvents
          [example_event 1625011200000 58 ''Thunderstorm Wind'' (Some 40.8) (Some (- 73.1)),
           example_event 1625011200000 58 ''High Wind'' None None,
           example_event 1625011200000 60 ''High Wind'' None None])
      = Some (example_event 1625011200000 58 ''Thunderstorm Wind'' (Some 40.8) (Some (- 73.1)))"
proof -
  let ?a = "example_event 1625011200000 58 ''Thunderstorm Wind'' (Some 40.8) (Some (- 73.1))"
  let ?b = "example_event 1625011200000 58 ''High Wind'' None None"
  let ?c = "example_event 1625011200000 60 ''High Wind'' None None"
  have k: "dedup_key ?a = ''06/30/2021-58''" "dedup_key ?b = ''06/30/2021-58''"
      "dedup_key ?c = ''06/30/2021-60''"
    by code_simp+
  then have u: "uniqueEvents [?a, ?b, ?c] = [?a, ?c]"
    by (simp add: uniqueEvents_def)
  have "dedup_key ?a = dedup_key ?b"
    using k by simp
  then have "date_speed ?a = date_speed ?b"
    using dedup_keeps_first [of ?a ?b "[?a, ?b, ?c]"] by (simp add: date_speed_def)
  then have "find (\<lambda>x. date_speed x = date_speed ?b) [?a, ?b, ?c] = Some ?a"
    by simp
  then show ?thesis
    using dedup_keeps_first [of ?b ?b "[?a, ?b, ?c]"] u k by simp
qed

subsection \<open>The radius filter and the distance reported\<close>

text \<open>
  What the code does with a radius: without a positive radius the events pass as they
  are; with one, the events kept are those whose two coordinates are neither missing nor
  zero and whose distance is within the radius, each with its distance written into
  it; and the distance reported is the distance rounded to one decimal, or nothing when
  the distance is zero.
\<close>

lemma no_radius_no_filter: "\<not> positive r \<Longrightarrow> filteredEvents g r xs = xs"
  by (simp add: filteredEvents_def)

lemma radius_filter_rule:
  assumes "positive r"
  shows "filteredEvents g r xs
       = map (\<lambda>e. e\<lparr>distanceMiles :=
                Some (haversineDistance (geo_lat g) (geo_lon g) (the (lat e)) (the (lon e)))\<rparr>)
           (filter (\<lambda>e. truthy (lat e) \<and> truthy (lon e)
                \<and> distance_le
                     (Some (haversineDistance (geo_lat g) (geo_lon g) (the (lat e)) (the (lon e))))
                     r) xs)"
proof -
  have "filter (in_radius r) (map (set_distance g) xs)
      = map (set_distance g) (filter (in_radius r \<circ> set_distance g) xs)"
    by (simp add: filter_map)
  also have "filter (in_radius r \<circ> set_distance g) xs
      = filter (\<lambda>e. truthy (lat e) \<and> truthy (lon e)
          \<and> distance_le
               (Some (haversineDistance (geo_lat g) (geo_lon g) (the (lat e)) (the (lon e))))
               r) xs"
    by (rule filter_cong)
      (auto simp: in_radius_def set_distance_def truthy_def split: option.splits)
  also have "map (set_distance g) \<dots>
      = map (\<lambda>e. e\<lparr>distanceMiles :=
                Some (haversineDistance (geo_lat g) (geo_lon g) (the (lat e)) (the (lon e)))\<rparr>) \<dots>"
    by (rule map_cong) (auto simp: set_distance_def truthy_def split: option.splits)
  finally show ?thesis
    using assms by (simp add: filteredEvents_def)
qed

lemma reported_distance_rule:
  "r_distanceMiles (result_of (e\<lparr>distanceMiles := Some d\<rparr>))
     = (if d = 0 then None else Some (real_of_int (round_half_up (d * 10)) / 10))"
  by (simp add: result_of_def truthy_def)

subsection \<open>Years that fail\<close>

lemma year_loop_append:
  "year_loop w g c (xs @ ys) st acc
     = (case year_loop w g c xs st acc of (st1, acc1) \<Rightarrow> year_loop w g c ys st1 acc1)"
  by (induction xs arbitrary: st acc) (auto split: prod.splits sum.splits)

lemma year_loop_keeps: "\<exists>later. snd (year_loop w g c ys st acc) = acc @ later"
proof (induction ys arbitrary: st acc)
  case Nil
  then show ?case by simp
next
  case (Cons y ys)
  obtain st' r where r: "getWindEventsForYear w y g c st = (st', r)"
    by (cases "getWindEventsForYear w y g c st")
  show ?case
  proof (cases r)
    case (Inl e)
    with r Cons [of st' acc] show ?thesis by simp
  next
    case (Inr es)
    from Cons [of st' "acc @ es"] obtain later where
      "snd (year_loop w g c ys st' (acc @ es)) = (acc @ es) @ later" by blast
    with r Inr show ?thesis by simp
  qed
qed

lemma listing_failure:
  assumes "html (directoryCache st) = None" "listing w y = None"
  shows "getWindEventsForYear w y g c st = (st, Inl ListingFetchFailed)"
  using assms
  by (simp add: getWindEventsForYear_def getLatestStormFilename_def getNoaaDirectoryHtml_def
      fetch_listing_def)

lemma download_failure:
  assumes "getLatestStormFilename w y st = (st1, Inr (Some name))"
    "name \<notin> cached_files st1" "\<not> download w y name"
  shows "getWindEventsForYear w y g c st = (st1, Inl (DownloadFailed name))"
  using assms by (simp add: getWindEventsForYear_def ensureFileDownloaded_def)

lemma stream_failure:
  assumes "getLatestStormFilename w y st = (st1, Inr (Some name))"
    "ensureFileDownloaded w y name st1 = (st2, Inr ())" "file_rows w name = Inl e"
  shows "getWindEventsForYear w y g c st = (st2, Inl e)"
  using assms by (simp add: getWindEventsForYear_def Let_def)

text \<open>The three stages are the only ways in which a year fails.\<close>

lemma year_failure_cases:
  assumes "getWindEventsForYear w y g c st = (st', Inl e)"
  shows "(e = ListingFetchFailed \<and> listing w y = None)
       \<or> (\<exists>name. e = DownloadFailed name \<and> \<not> download w y name)
       \<or> (\<exists>name. file_rows w name = Inl e)"
  using assms
  by (auto simp: getWindEventsForYear_def getLatestStormFilename_def getNoaaDirectoryHtml_def
      fetch_listing_def ensureFileDownloaded_def Let_def
      split: prod.splits sum.splits option.splits if_splits)

lemma handler_succeeds:
  assumes "trim (or_empty (address req)) \<noteq> []"
    and "geocode w (trim (or_empty (address req))) = Inr (Some g)"
  shows "\<exists>st' p. handler w req st = (st', Status200 p)
      \<and> results p = map result_of (final_events g (radius_of_query (radius req))
            (snd (year_loop w g (request_cutoff w) (request_years w) st [])))"
  using assms by (simp add: handler_def Let_def)

text \<open>
  Claim C8.  When the processing of a year throws, whatever the stage, the loop goes on
  with the years that follow, from the state the failing year has left and with the
  events accumulated before it unchanged: the year adds none, and those events are
  the beginning of what the loop returns.  And a request with an address the geocoder
  resolves is answered with status 200 and the results made of the events of the loop,
  whichever years have failed.
\<close>

theorem failing_year_contributes_nothing:
  "(year_loop w g c earlier st acc = (st1, acc1)
      \<and> getWindEventsForYear w y g c st1 = (st2, Inl err)
    \<longrightarrow> year_loop w g c (earlier @ y # following) st acc = year_loop w g c following st2 acc1
        \<and> (\<exists>more. snd (year_loop w g c (earlier @ y # following) st acc) = acc1 @ more))
   \<and> (trim (or_empty (address req)) \<noteq> []
        \<and> geocode w (trim (or_empty (address req))) = Inr (Some g)
      \<longrightarrow> (\<exists>st' p. handler w req st = (st', Status200 p)
            \<and> results p = map result_of (final_events g (radius_of_query (radius req))
                 (snd (year_loop w g (request_cutoff w) (request_years w) st [])))))"
proof (intro conjI impI)
  assume a: "year_loop w g c earlier st acc = (st1, acc1)
      \<and> getWindEventsForYear w y g c st1 = (st2, Inl err)"
  then show 1: "year_loop w g c (earlier @ y # following) st acc
      = year_loop w g c following st2 acc1"
    by (simp add: year_loop_append)
  show "\<exists>more. snd (year_loop w g c (earlier @ y # following) st acc) = acc1 @ more"
    unfolding 1 by (rule year_loop_keeps)
next
  assume "trim (or_empty (address req)) \<noteq> []
      \<and> geocode w (trim (or_empty (address req))) = Inr (Some g)"
  then show "\<exists>st' p. handler w req st = (st', Status200 p)
      \<and> results p = map result_of (final_events g (radius_of_query (radius req))
           (snd (year_loop w g (request_cutoff w) (request_years w) st [])))"
    using handler_succeeds by blast
qed

lemma short_listing_latest:
  "latest_in_listing short_listing 2020 = Some ''StormEvents_details-ftp_v1.0_d2020_c20240620.csv.gz''"
  "latest_in_listing short_listing 2021 = Some ''StormEvents_details-ftp_v1.0_d2021_c20240716.csv.gz''"
  "latest_in_listing short_listing 2022 = Some ''StormEvents_details-ftp_v1.0_d2022_c20250520.csv.gz''"
  by code_simp+

lemma example_geo_names:
  "normalizeName (county example_geo) = ''suffolk''"
  "normalizeName (state example_geo) = ''new york''"
  by code_simp+

lemma row_2022:
  "row_event ''suffolk'' ''new york'' 0
     (example_row ''High Wind'' ''06/30/2022 14:05:00'' ''58'' [] ''40.8'' ''-73.1'')
   = Some (example_event 1656547200000 58 ''High Wind'' (Some 40.8) (Some (- 73.1)))"
  by code_simp

lemma short_listing_nonempty: "short_listing \<noteq> []"
  by (simp add: short_listing_def)

lemma failing_world_2019: "getWindEventsForYear failing_world 2019 example_geo 0 empty_state
    = (empty_state, Inl ListingFetchFailed)"
  by (rule listing_failure) (simp_all add: empty_state_def failing_world_def)

lemma failing_world_2020: "getWindEventsForYear failing_world 2020 example_geo 0 empty_state
    = (listed_state, Inl (DownloadFailed ''StormEvents_details-ftp_v1.0_d2020_c20240620.csv.gz''))"
  by (rule download_failure)
    (simp_all add: getLatestStormFilename_def getNoaaDirectoryHtml_def fetch_listing_def
      empty_state_def failing_world_def listed_state_def short_listing_latest)

lemma failing_world_2021: "getWindEventsForYear failing_world 2021 example_geo 0 listed_state
    = (listed_state\<lparr>cached_files := {''StormEvents_details-ftp_v1.0_d2021_c20240716.csv.gz''}\<rparr>,
       Inl StreamFailed)"
  by (rule stream_failure [where name = "''StormEvents_details-ftp_v1.0_d2021_c20240716.csv.gz''"
        and ?st1.0 = listed_state])
    (simp_all add: getLatestStormFilename_def getNoaaDirectoryHtml_def fetch_listing_def
      ensureFileDownloaded_def failing_world_def listed_state_def short_listing_latest
      short_listing_nonempty DIRECTORY_CACHE_TTL_def)

lemma failing_world_2022: "snd (getWindEventsForYear failing_world 2022 example_geo 0
      (listed_state\<lparr>cached_files := {''StormEvents_details-ftp_v1.0_d2021_c20240716.csv.gz''}\<rparr>))
    = Inr [example_event 1656547200000 58 ''High Wind'' (Some 40.8) (Some (- 73.1))]"
  by (simp add: getWindEventsForYear_def getLatestStormFilename_def getNoaaDirectoryHtml_def
      fetch_listing_def ensureFileDownloaded_def failing_world_def listed_state_def
      short_listing_latest short_listing_nonempty DIRECTORY_CACHE_TTL_def example_geo_names
      row_2022 List.map_filter_simps)

text \<open>
  In the failing world the years 2019, 2020 and 2021 throw at the three stages, and the
  event of 2022 is what the loop over the four years returns; the request succeeds.
\<close>

theorem failing_year_contributes_nothing_witness:
  "getWindEventsForYear failing_world 2019 example_geo 0 empty_state
     = (empty_state, Inl ListingFetchFailed)
   \<and> getWindEventsForYear failing_world 2020 example_geo 0 empty_state
     = (listed_state, Inl (DownloadFailed ''StormEvents_details-ftp_v1.0_d2020_c20240620.csv.gz''))
   \<and> snd (getWindEventsForYear failing_world 2021 example_geo 0 listed_state) = Inl StreamFailed
   \<and> snd (year_loop failing_world example_geo 0 [2019, 2020, 2021, 2022] empty_state [])
     = [example_event 1656547200000 58 ''High Wind'' (Some 40.8) (Some (- 73.1))]
   \<and> (\<exists>st' p. handler failing_world \<lparr> address = Some ''Main St, Riverhead NY'', radius = NaN \<rparr>
          empty_state = (st', Status200 p))"
proof -
  let ?st2 = "listed_state\<lparr>cached_files :=
      {''StormEvents_details-ftp_v1.0_d2021_c20240716.csv.gz''}\<rparr>"
  let ?ev = "example_event 1656547200000 58 ''High Wind'' (Some 40.8) (Some (- 73.1))"
  have a: "year_loop failing_world example_geo 0 [2019, 2020] empty_state [] = (listed_state, [])"
    by (simp add: failing_world_2019 failing_world_2020)
  obtain st3 where "getWindEventsForYear failing_world 2022 example_geo 0 ?st2 = (st3, Inr [?ev])"
    using failing_world_2022 by (cases "getWindEventsForYear failing_world 2022 example_geo 0 ?st2") auto
  then have b: "snd (year_loop failing_world example_geo 0 [2022] ?st2 []) = [?ev]"
    by simp
  have t: "trim (or_empty (address \<lparr> address = Some ''Main St, Riverhead NY'', radius = NaN \<rparr>))
      = ''Main St, Riverhead NY''"
    by code_simp
  have g: "geocode failing_world ''Main St, Riverhead NY'' = Inr (Some example_geo)"
    by (simp add: failing_world_def)
  have "snd (year_loop failing_world example_geo 0 ([2019, 2020] @ 2021 # [2022]) empty_state [])
      = [?ev]"
    using failing_year_contributes_nothing
      [of failing_world example_geo 0 "[2019, 2020]" empty_state "[]" listed_state "[]"
        2021 ?st2 StreamFailed "[2022]"] a failing_world_2021 b
    by simp
  moreover have "\<exists>st' p. handler failing_world
      \<lparr> address = Some ''Main St, Riverhead NY'', radius = NaN \<rparr> empty_state = (st', Status200 p)"
    using failing_year_contributes_nothing
      [of failing_world example_geo 0 "[]" empty_state "[]" empty_state "[]" 2019 empty_state
        ListingFetchFailed "[]" "\<lparr> address = Some ''Main St, Riverhead NY'', radius = NaN \<rparr>"]
      t g
    by auto
  ultimately show ?thesis
    using failing_world_2019 failing_world_2020 failing_world_2021 by simp
qed

section \<open>Properties of \<open>parseNoaaDate\<close>\<close>















section \<open>Whole requests\<close>

subsection \<open>What every result satisfies\<close>

lemma single_final_events:
  "final_events g r [e] = filteredEvents g r [e]"
  by (cases "filteredEvents g r [e]")
    (auto simp: final_events_def sortedEvents_def Array_sort_def uniqueEvents_def
      filteredEvents_def split: if_splits)

lemma row_event_properties:
  assumes "row_event c s cutoff rec = Some e"
  shows "cutoff \<le> date e \<and> eventType e \<in> WIND_EVENT_TYPES \<and> 0 \<le> windSpeedMph e
         \<and> distanceMiles e = None"
proof -
  from assms obtain m where m: "converted_magnitude rec = Fin m" "0 < m"
    "windSpeedMph e = round_half_up m"
    by (auto simp: row_event_def Let_def split: if_splits option.splits jsnum.splits)
  then have "0 \<le> windSpeedMph e"
    by (simp add: round_half_up_def)
  moreover from assms have "cutoff \<le> date e \<and> eventType e \<in> WIND_EVENT_TYPES
      \<and> distanceMiles e = None"
    by (auto simp: row_event_def Let_def split: if_splits option.splits jsnum.splits)
  ultimately show ?thesis by simp
qed

lemma unique_from_subset: "set (unique_from seen xs) \<subseteq> set xs"
  by (induction xs arbitrary: seen) auto

lemma final_events_origin:
  assumes "e \<in> set (final_events g r acc)"
  shows "\<exists>e0 \<in> set acc. date e = date e0 \<and> windSpeedMph e = windSpeedMph e0
           \<and> eventType e = eventType e0"
proof -
  from assms have "e \<in> set (filteredEvents g r (sortedEvents acc))"
    using unique_from_subset by (auto simp: final_events_def uniqueEvents_def)
  then have "e \<in> set (sortedEvents acc) \<or> (\<exists>e0 \<in> set (sortedEvents acc). e = set_distance g e0)"
    by (auto simp: filteredEvents_def split: if_splits)
  then show ?thesis
    by (auto simp: sortedEvents_def set_Array_sort set_distance_fields)
qed

lemma map_filter_mem: "e \<in> set (List.map_filter f xs) \<Longrightarrow> \<exists>x \<in> set xs. f x = Some e"
  by (induction xs) (auto split: option.splits)

lemma year_events_from_rows:
  assumes "getWindEventsForYear w y g c st = (st', Inr evs)" "e \<in> set evs"
  shows "\<exists>rec tc ts. row_event tc ts c rec = Some e"
proof -
  from assms(1) have "evs = [] \<or> (\<exists>tc ts rows. evs = List.map_filter (row_event tc ts c) rows)"
    by (auto simp: getWindEventsForYear_def Let_def
        split: prod.splits sum.splits option.splits)
  with assms(2) show ?thesis
    using map_filter_mem by fastforce
qed

lemma year_loop_from_rows:
  assumes "e \<in> set (snd (year_loop w g c ys st acc))"
  shows "e \<in> set acc \<or> (\<exists>rec tc ts. row_event tc ts c rec = Some e)"
  using assms
proof (induction ys arbitrary: st acc)
  case Nil
  then show ?case by simp
next
  case (Cons y ys)
  obtain st' r where r: "getWindEventsForYear w y g c st = (st', r)"
    by (cases "getWindEventsForYear w y g c st")
  show ?case
  proof (cases r)
    case (Inl err)
    with r Cons show ?thesis by simp
  next
    case (Inr evs)
    with r Cons.prems have "e \<in> set (snd (year_loop w g c ys st' (acc @ evs)))" by simp
    from Cons.IH [OF this] year_events_from_rows [OF r [unfolded Inr]]
    show ?thesis by auto
  qed
qed

lemma final_events_window:
  assumes "e \<in> set (final_events g r (snd (year_loop w g c ys st [])))"
  shows "c \<le> date e \<and> eventType e \<in> WIND_EVENT_TYPES \<and> 0 \<le> windSpeedMph e"
proof -
  from final_events_origin [OF assms] obtain e0 where
    e0: "e0 \<in> set (snd (year_loop w g c ys st []))" "date e = date e0"
      "windSpeedMph e = windSpeedMph e0" "eventType e = eventType e0" by blast
  from year_loop_from_rows [OF e0(1)] obtain rec tc ts where "row_event tc ts c rec = Some e0"
    by auto
  from row_event_properties [OF this] e0 show ?thesis by simp
qed

subsection \<open>The world in which nothing fails\<close>

lemma short_listing_matches:
  "exec_all 0 short_listing =
     [(''StormEvents_details-ftp_v1.0_d2020_c20240620.csv.gz'', ''2020'', ''20240620''),
      (''StormEvents_details-ftp_v1.0_d2021_c20240716.csv.gz'', ''2021'', ''20240716''),
      (''StormEvents_details-ftp_v1.0_d2022_c20250520.csv.gz'', ''2022'', ''20250520'')]"
  by code_simp

lemma short_listing_years:
  "latest_in_listing short_listing y =
     (if y = 2020 then Some ''StormEvents_details-ftp_v1.0_d2020_c20240620.csv.gz''
      else if y = 2021 then Some ''StormEvents_details-ftp_v1.0_d2021_c20240716.csv.gz''
      else if y = 2022 then Some ''StormEvents_details-ftp_v1.0_d2022_c20250520.csv.gz''
      else None)"
  by (simp add: latest_in_listing_def year_matches_def short_listing_matches
      Number_of_digits_def digits_val_def digit_val_def Array_sort_def first_element_def)

lemma example_cutoff: "request_cutoff (example_world rows) = 1478131200000"
  "getUTCFullYear 1478131200000 = 2016"
  "getUTCFullYear (now_end (example_world rows)) = 2026"
  unfolding example_world_def by code_simp+

lemma example_world_year:
  assumes "html (directoryCache st) = None \<or> directoryCache st = listed_cache"
  shows "\<exists>st'. getWindEventsForYear (example_world rows) y example_geo c st
           = (st', Inr (if y = 2022
                        then List.map_filter (row_event ''suffolk'' ''new york'' c) rows
                        else []))
         \<and> directoryCache st' = listed_cache"
proof -
  let ?w = "example_world rows"
  let ?st1 = "st\<lparr>directoryCache := listed_cache\<rparr>"
  have r: "getLatestStormFilename ?w y st = (?st1, Inr (latest_in_listing short_listing y))"
    using assms
    by (auto simp: getLatestStormFilename_def getNoaaDirectoryHtml_def fetch_listing_def
        example_world_def listed_cache_def short_listing_nonempty DIRECTORY_CACHE_TTL_def)
  have d: "\<exists>st2. ensureFileDownloaded ?w y name ?st1 = (st2, Inr ())
      \<and> directoryCache st2 = listed_cache" for name
    by (simp add: ensureFileDownloaded_def example_world_def)
  show ?thesis
  proof (cases "latest_in_listing short_listing y")
    case None
    then have "y \<noteq> 2022" by (simp add: short_listing_years split: if_splits)
    with None r show ?thesis by (simp add: getWindEventsForYear_def)
  next
    case (Some name)
    from d [of name] obtain st2 where
      st2: "ensureFileDownloaded ?w y name ?st1 = (st2, Inr ())" "directoryCache st2 = listed_cache"
      by blast
    have f: "file_rows ?w name = Inr (if y = 2022 then rows else [])"
      using Some by (auto simp: short_listing_years example_world_def split: if_splits)
    show ?thesis
      using r Some st2 f
      by (simp add: getWindEventsForYear_def example_geo_names List.map_filter_simps)
  qed
qed

lemma example_world_loop:
  assumes "html (directoryCache st) = None \<or> directoryCache st = listed_cache"
  shows "snd (year_loop (example_world rows) example_geo c ys st acc)
       = acc @ concat (map (\<lambda>y. if y = 2022
            then List.map_filter (row_event ''suffolk'' ''new york'' c) rows else []) ys)"
  using assms
proof (induction ys arbitrary: st acc)
  case Nil
  then show ?case by simp
next
  case (Cons y ys)
  from example_world_year [OF Cons.prems, of rows y c] obtain st' where
    st': "getWindEventsForYear (example_world rows) y example_geo c st
           = (st', Inr (if y = 2022
                        then List.map_filter (row_event ''suffolk'' ''new york'' c) rows
                        else []))"
      "directoryCache st' = listed_cache" by blast
  then show ?case
    using Cons.IH [of st'] by simp
qed

lemma example_world_events:
  "snd (year_loop (example_world rows) example_geo (request_cutoff (example_world rows))
         (request_years (example_world rows)) empty_state [])
   = List.map_filter (row_event ''suffolk'' ''new york'' 1478131200000) rows"
proof -
  let ?evs = "List.map_filter (row_event ''suffolk'' ''new york'' 1478131200000) rows"
  let ?ys = "request_years (example_world rows)"
  have ys: "?ys = [2016, 2017, 2018, 2019, 2020, 2021, 2022, 2023, 2024, 2025, 2026]"
    by (simp add: request_years_def example_cutoff upto_rec_numeral)
  have "snd (year_loop (example_world rows) example_geo 1478131200000 ?ys empty_state [])
      = [] @ concat (map (\<lambda>y. if y = 2022 then ?evs else []) ?ys)"
    by (rule example_world_loop) (simp add: empty_state_def)
  also have "concat (map (\<lambda>y. if y = 2022 then ?evs else []) ?ys) = ?evs"
    unfolding ys by simp
  finally show ?thesis
    by (simp add: example_cutoff(1))
qed

lemma example_world_response:
  "snd (handler (example_world rows) \<lparr> address = Some ''Main St, Riverhead NY'', radius = q \<rparr>
          empty_state)
   = Status200
       \<lparr> p_address = ''Suffolk County, New York, United States'',
         p_county = Some ''Suffolk'', p_state = Some ''New York'',
         p_radiusMiles = radius_or_null (radius_of_query q),
         results = map result_of (final_events example_geo (radius_of_query q)
           (List.map_filter (row_event ''suffolk'' ''new york'' 1478131200000) rows)) \<rparr>"
proof -
  have t: "trim (or_empty (Some ''Main St, Riverhead NY'')) = ''Main St, Riverhead NY''"
    by code_simp
  have g: "geocode (example_world rows) a = Inr (Some example_geo)" for a
    by (simp add: example_world_def)
  show ?thesis
    by (simp add: handler_def Let_def t g example_world_events)
      (simp add: example_geo_def)
qed

lemma format_2022: "formatDate 1656547200000 = ''06/30/2022''"
  by code_simp

subsection \<open>A magnitude below one half\<close>

text \<open>
  Claim C1 says that every result has a begin date not before the cutoff, a type of the
  allow-list and a wind speed greater than zero.  The first two hold, and the speed is
  never negative (\<open>final_events_window\<close>); but the row check compares the magnitude
  with zero before it is rounded, so a row without a gust flag and with a magnitude
  below one half is kept with the speed 0.  Here the county has one such row, of
  magnitude 0.4, and the request has no radius: the response lists that event with a
  wind speed of 0 miles per hour.
\<close>

theorem small_magnitude_gives_speed_zero:
  "row_event ''suffolk'' ''new york'' 1478131200000
     (example_row ''High Wind'' ''06/30/2022 14:05:00'' ''0.4'' [] ''40.8'' ''-73.1'')
   = Some (example_event 1656547200000 0 ''High Wind'' (Some 40.8) (Some (- 73.1)))
   \<and> snd (handler
        (example_world
           [example_row ''High Wind'' ''06/30/2022 14:05:00'' ''0.4'' [] ''40.8'' ''-73.1''])
        \<lparr> address = Some ''Main St, Riverhead NY'', radius = NaN \<rparr> empty_state)
     = Status200
         \<lparr> p_address = ''Suffolk County, New York, United States'',
           p_county = Some ''Suffolk'', p_state = Some ''New York'', p_radiusMiles = None,
           results = [\<lparr> r_date = ''06/30/2022'', r_windSpeedMph = 0,
                        r_eventType = ''High Wind'', r_distanceMiles = None \<rparr>] \<rparr>"
proof -
  have r: "row_event ''suffolk'' ''new york'' 1478131200000
     (example_row ''High Wind'' ''06/30/2022 14:05:00'' ''0.4'' [] ''40.8'' ''-73.1'')
   = Some (example_event 1656547200000 0 ''High Wind'' (Some 40.8) (Some (- 73.1)))"
    by code_simp
  let ?row = "example_row ''High Wind'' ''06/30/2022 14:05:00'' ''0.4'' [] ''40.8'' ''-73.1''"
  let ?ev = "example_event 1656547200000 0 ''High Wind'' (Some 40.8) (Some (- 73.1))"
  have q: "radius_of_query NaN = Fin 0" "radius_or_null (Fin 0) = None"
    by (simp_all add: radius_of_query_def radius_or_null_def)
  have mf: "List.map_filter (row_event ''suffolk'' ''new york'' 1478131200000) [?row] = [?ev]"
    by (simp add: List.map_filter_simps r)
  have fe: "final_events example_geo (Fin 0) [?ev] = [?ev]"
    by (simp add: single_final_events filteredEvents_def positive_def)
  have ro: "map result_of [?ev] = [\<lparr> r_date = ''06/30/2022'', r_windSpeedMph = 0,
      r_eventType = ''High Wind'', r_distanceMiles = None \<rparr>]"
    by (simp add: result_of_def example_event_def format_2022)
  from r show ?thesis
    unfolding example_world_response q mf fe ro by simp
qed

subsection \<open>An event at the target\<close>

lemma haversine_same_point: "haversineDistance la lo la lo = 0"
  by (simp add: haversineDistance_def toRad_def atan2_def)

text \<open>
  Claim C2 says that with a radius every result carries its distance, and that an event
  at the coordinates of the target is reported with the distance 0.  Here the one row
  of the county lies at the coordinates the geocoder gave and the radius is 10 miles:
  the distance computed is 0, the event is kept, and the response gives it no distance
  (\<open>null\<close>), since the final shaping takes a distance of zero for a missing one.
\<close>

theorem event_at_target_reports_no_distance:
  "row_event ''suffolk'' ''new york'' 1478131200000
     (example_row ''High Wind'' ''06/30/2022 14:05:00'' ''58'' [] ''40.9'' ''-72.8'')
   = Some (example_event 1656547200000 58 ''High Wind'' (Some 40.9) (Some (- 72.8)))
   \<and> haversineDistance (geo_lat example_geo) (geo_lon example_geo) 40.9 (- 72.8) = 0
   \<and> snd (handler
        (example_world
           [example_row ''High Wind'' ''06/30/2022 14:05:00'' ''58'' [] ''40.9'' ''-72.8''])
        \<lparr> address = Some ''Main St, Riverhead NY'', radius = Fin 10 \<rparr> empty_state)
     = Status200
         \<lparr> p_address = ''Suffolk County, New York, United States'',
           p_county = Some ''Suffolk'', p_state = Some ''New York'', p_radiusMiles = Some 10,
           results = [\<lparr> r_date = ''06/30/2022'', r_windSpeedMph = 58,
                        r_eventType = ''High Wind'', r_distanceMiles = None \<rparr>] \<rparr>"
proof -
  have r: "row_event ''suffolk'' ''new york'' 1478131200000
     (example_row ''High Wind'' ''06/30/2022 14:05:00'' ''58'' [] ''40.9'' ''-72.8'')
   = Some (example_event 1656547200000 58 ''High Wind'' (Some 40.9) (Some (- 72.8)))"
    by code_simp
  have h: "haversineDistance (geo_lat example_geo) (geo_lon example_geo) 40.9 (- 72.8) = 0"
    using haversine_same_point [of "40.9" "- 72.8"] by (simp add: example_geo_def)
  have f: "filteredEvents example_geo (Fin 10)
      [example_event 1656547200000 58 ''High Wind'' (Some 40.9) (Some (- 72.8))]
    = [(example_event 1656547200000 58 ''High Wind'' (Some 40.9) (Some (- 72.8)))
         \<lparr>distanceMiles := Some 0\<rparr>]"
    using h
    by (simp add: filteredEvents_def positive_def set_distance_def in_radius_def truthy_def
        distance_le_def example_event_def)
  let ?row = "example_row ''High Wind'' ''06/30/2022 14:05:00'' ''58'' [] ''40.9'' ''-72.8''"
  let ?ev = "example_event 1656547200000 58 ''High Wind'' (Some 40.9) (Some (- 72.8))"
  have q: "radius_of_query (Fin 10) = Fin 10" "radius_or_null (Fin 10) = Some 10"
    by (simp_all add: radius_of_query_def radius_or_null_def)
  have mf: "List.map_filter (row_event ''suffolk'' ''new york'' 1478131200000) [?row] = [?ev]"
    by (simp add: List.map_filter_simps r)
  have fe: "final_events example_geo (Fin 10) [?ev] = [?ev\<lparr>distanceMiles := Some 0\<rparr>]"
    unfolding single_final_events f by simp
  have ro: "map result_of [?ev\<lparr>distanceMiles := Some 0\<rparr>]
      = [\<lparr> r_date = ''06/30/2022'', r_windSpeedMph = 58,
           r_eventType = ''High Wind'', r_distanceMiles = None \<rparr>]"
    by (simp add: result_of_def truthy_def example_event_def format_2022)
  from r h show ?thesis
    unfolding example_world_response q mf fe ro by simp
qed

subsection \<open>An event with a coordinate of zero\<close>

lemma atan2_first_quadrant: "0 \<le> y \<Longrightarrow> 0 \<le> x \<Longrightarrow> atan2 y x \<le> pi / 2"
  using arctan_ubound [of "y / x"] by (auto simp: atan2_def)

lemma haversine_same_meridian: "haversineDistance la lo la' lo \<le> 16000"
proof -
  define a where "a = sin (toRad (la' - la) / 2) * sin (toRad (la' - la) / 2)"
  have a0: "0 \<le> a" by (simp add: a_def)
  have "\<bar>sin (toRad (la' - la) / 2)\<bar> \<le> 1" by simp
  then have a1: "a \<le> 1"
    unfolding a_def by (metis abs_le_square_iff abs_one power2_eq_square one_power2)
  have "atan2 (sqrt a) (sqrt (1 - a)) \<le> pi / 2"
    using a0 a1 by (intro atan2_first_quadrant) simp_all
  then have "3958.8 * (2 * atan2 (sqrt a) (sqrt (1 - a))) \<le> 3958.8 * pi"
    by simp
  also have "\<dots> \<le> 3958.8 * 4" using pi_less_4 by simp
  finally have "3958.8 * (2 * atan2 (sqrt a) (sqrt (1 - a))) \<le> 16000" by simp
  moreover have "haversineDistance la lo la' lo = 3958.8 * (2 * atan2 (sqrt a) (sqrt (1 - a)))"
    by (simp add: haversineDistance_def Let_def a_def toRad_def)
  ultimately show ?thesis by simp
qed

text \<open>
  Claim C3 says that with a radius an event passes the filter exactly when it has both
  coordinates and lies within the radius.  Here the one row of the county has the
  latitude 0 and the longitude of the target, and the radius of 16000 miles is more than
  the distance between any two points of one meridian: the event has both coordinates
  and lies within the radius, and the filter drops it, since it takes a coordinate of
  zero for a missing one.  The response has no result.
\<close>

theorem event_on_equator_is_dropped:
  "row_event ''suffolk'' ''new york'' 1478131200000
     (example_row ''High Wind'' ''06/30/2022 14:05:00'' ''58'' [] ''0'' ''-72.8'')
   = Some (example_event 1656547200000 58 ''High Wind'' (Some 0) (Some (- 72.8)))
   \<and> haversineDistance (geo_lat example_geo) (geo_lon example_geo) 0 (- 72.8) \<le> 16000
   \<and> filteredEvents example_geo (Fin 16000)
        [example_event 1656547200000 58 ''High Wind'' (Some 0) (Some (- 72.8))] = []
   \<and> snd (handler
        (example_world
           [example_row ''High Wind'' ''06/30/2022 14:05:00'' ''58'' [] ''0'' ''-72.8''])
        \<lparr> address = Some ''Main St, Riverhead NY'', radius = Fin 16000 \<rparr> empty_state)
     = Status200
         \<lparr> p_address = ''Suffolk County, New York, United States'',
           p_county = Some ''Suffolk'', p_state = Some ''New York'', p_radiusMiles = Some 16000,
           results = [] \<rparr>"
proof -
  have r: "row_event ''suffolk'' ''new york'' 1478131200000
     (example_row ''High Wind'' ''06/30/2022 14:05:00'' ''58'' [] ''0'' ''-72.8'')
   = Some (example_event 1656547200000 58 ''High Wind'' (Some 0) (Some (- 72.8)))"
    by code_simp
  have h: "haversineDistance (geo_lat example_geo) (geo_lon example_geo) 0 (- 72.8) \<le> 16000"
    using haversine_same_meridian [of "40.9" "- 72.8" 0] by (simp add: example_geo_def)
  have f: "filteredEvents example_geo (Fin 16000)
      [example_event 1656547200000 58 ''High Wind'' (Some 0) (Some (- 72.8))] = []"
    by (simp add: filteredEvents_def positive_def set_distance_def in_radius_def truthy_def
        example_event_def)
  let ?row = "example_row ''High Wind'' ''06/30/2022 14:05:00'' ''58'' [] ''0'' ''-72.8''"
  let ?ev = "example_event 1656547200000 58 ''High Wind'' (Some 0) (Some (- 72.8))"
  have q: "radius_of_query (Fin 16000) = Fin 16000" "radius_or_null (Fin 16000) = Some 16000"
    by (simp_all add: radius_of_query_def radius_or_null_def)
  have mf: "List.map_filter (row_event ''suffolk'' ''new york'' 1478131200000) [?row] = [?ev]"
    by (simp add: List.map_filter_simps r)
  have fe: "final_events example_geo (Fin 16000) [?ev] = []"
    unfolding single_final_events f by simp
  from r h f show ?thesis
    unfolding example_world_response q mf fe by simp
qed

end
